theory Spec2Isabelle
  imports Complex_Main "HOL-Library.Word"
begin

unbundle bit_operations_syntax

section \<open>The bus transport and Python conventions\<close>

text \<open>
  The drivers of \<^verbatim>\<open>i2csense\<close> talk to an injected SMBus handle. The handle is modelled as
  a deterministic transport whose answer to a call may depend on everything that happened
  before: each primitive receives the list of events so far. A write answers \<open>True\<close> when it
  succeeds and \<open>False\<close> when it raises \<^verbatim>\<open>OSError\<close>; a read answers \<open>None\<close> when it raises.
  Every call is appended to the event list together with its outcome, and so is every
  \<^verbatim>\<open>sleep\<close>, so the event list is the observable call sequence of a driver.

  Python integers are unbounded and are modelled as \<open>int\<close>. Python floats are modelled as
  \<open>real\<close>, that is, with exact arithmetic: rounding errors of IEEE doubles are not part of
  the model. The optional logger and the console fallback only print and are left out.
\<close>

datatype py_error =
  OSError | TypeError | IndexError | ZeroDivisionError | KeyError | ValueError

datatype event =
    Write_byte int int bool
  | Write_byte_data int int int bool
  | Read_byte_data int int "int option"
  | Read_word_data int int "int option"
  | Read_i2c_block_data int int int "int list option"
  | Sleep real

type_synonym trace = "event list"

record bus =
  bus_write_byte :: "trace \<Rightarrow> int \<Rightarrow> int \<Rightarrow> bool"
  bus_write_byte_data :: "trace \<Rightarrow> int \<Rightarrow> int \<Rightarrow> int \<Rightarrow> bool"
  bus_read_byte_data :: "trace \<Rightarrow> int \<Rightarrow> int \<Rightarrow> int option"
  bus_read_word_data :: "trace \<Rightarrow> int \<Rightarrow> int \<Rightarrow> int option"
  bus_read_i2c_block_data :: "trace \<Rightarrow> int \<Rightarrow> int \<Rightarrow> int \<Rightarrow> int list option"

definition write_byte :: "bus \<Rightarrow> trace \<Rightarrow> int \<Rightarrow> int \<Rightarrow> bool \<times> trace" where
  "write_byte b tr a v =
     (let r = bus_write_byte b tr a v in (r, tr @ [Write_byte a v r]))"

definition write_byte_data :: "bus \<Rightarrow> trace \<Rightarrow> int \<Rightarrow> int \<Rightarrow> int \<Rightarrow> bool \<times> trace" where
  "write_byte_data b tr a reg v =
     (let r = bus_write_byte_data b tr a reg v in (r, tr @ [Write_byte_data a reg v r]))"

definition read_byte_data :: "bus \<Rightarrow> trace \<Rightarrow> int \<Rightarrow> int \<Rightarrow> int option \<times> trace" where
  "read_byte_data b tr a reg =
     (let r = bus_read_byte_data b tr a reg in (r, tr @ [Read_byte_data a reg r]))"

definition read_word_data :: "bus \<Rightarrow> trace \<Rightarrow> int \<Rightarrow> int \<Rightarrow> int option \<times> trace" where
  "read_word_data b tr a reg =
     (let r = bus_read_word_data b tr a reg in (r, tr @ [Read_word_data a reg r]))"

definition read_i2c_block_data ::
    "bus \<Rightarrow> trace \<Rightarrow> int \<Rightarrow> int \<Rightarrow> int \<Rightarrow> int list option \<times> trace" where
  "read_i2c_block_data b tr a reg n =
     (let r = bus_read_i2c_block_data b tr a reg n
      in (r, tr @ [Read_i2c_block_data a reg n r]))"

definition sleep :: "trace \<Rightarrow> real \<Rightarrow> trace" where
  "sleep tr t = tr @ [Sleep t]"

text \<open>Reading a run of registers one byte at a time; the first failure ends the run.\<close>

fun read_registers :: "bus \<Rightarrow> int \<Rightarrow> int list \<Rightarrow> trace \<Rightarrow> int list option \<times> trace" where
  "read_registers b a [] tr = (Some [], tr)"
| "read_registers b a (reg # regs) tr =
     (case read_byte_data b tr a reg of
        (None, tr1) \<Rightarrow> (None, tr1)
      | (Some v, tr1) \<Rightarrow>
          (case read_registers b a regs tr1 of
             (None, tr2) \<Rightarrow> (None, tr2)
           | (Some vs, tr2) \<Rightarrow> (Some (v # vs), tr2)))"

text \<open>The fields of \<^verbatim>\<open>I2cBaseClass\<close>, with the address already parsed to an integer.\<close>

record i2c_base =
  i2c_add :: int
  ok :: bool

text \<open>\<^verbatim>\<open>sample_ok\<close> of the base class, as the BME280 and BH1750 drivers inherit it.\<close>

definition sample_ok :: "'a i2c_base_scheme \<Rightarrow> bool" where
  "sample_ok s = ok s"

section \<open>BME280: temperature, humidity and pressure\<close>

record bme280 = i2c_base +
  mode :: int
  ctrl_meas_reg :: int
  config_reg :: int
  ctrl_hum_reg :: int
  delta_temp :: real
  with_pressure :: bool
  with_humidity :: bool
  calibration_t :: "int list option"
  calibration_h :: "int list option"
  calibration_p :: "int list option"
  temp_fine :: "real option"
  temperature :: "real option"
  humidity :: "real option"
  pressure :: "real option"

text \<open>
  \<^verbatim>\<open>_compensate_temperature\<close>. Subscripting \<^verbatim>\<open>None\<close> raises \<^verbatim>\<open>TypeError\<close>, a table that is
  too short raises \<^verbatim>\<open>IndexError\<close>; both happen before \<^verbatim>\<open>_temp_fine\<close> is assigned.
\<close>

definition compensate_temperature :: "bme280 \<Rightarrow> int \<Rightarrow> py_error + real \<times> bme280" where
  "compensate_temperature s adc_t =
     (case calibration_t s of
        None \<Rightarrow> Inl TypeError
      | Some ct \<Rightarrow>
          if length ct < 3 then Inl IndexError
          else
            let var_1 = (real_of_int adc_t / 16384 - real_of_int (ct ! 0) / 1024)
                          * real_of_int (ct ! 1);
                var_2 = (real_of_int adc_t / 131072 - real_of_int (ct ! 0) / 8192)
                          * (real_of_int adc_t / 131072 - real_of_int (ct ! 0) / 8192)
                          * real_of_int (ct ! 2);
                fine = var_1 + var_2
            in if delta_temp s \<noteq> 0
               then (let temp = fine / 5120 + delta_temp s
                     in Inr (temp, s\<lparr>temp_fine := Some (temp * 5120)\<rparr>))
               else Inr (fine / 5120, s\<lparr>temp_fine := Some fine\<rparr>))"

text \<open>
  \<^verbatim>\<open>_compensate_pressure\<close>. The entries 5, 4, 3, 2, 1, 0 of the table are read before the
  test \<^verbatim>\<open>var_1 == 0\<close>, the entries 8, 7, 6 after it.
\<close>

definition compensate_pressure :: "bme280 \<Rightarrow> int \<Rightarrow> py_error + real" where
  "compensate_pressure s adc_p =
     (case temp_fine s of
        None \<Rightarrow> Inl TypeError
      | Some fine \<Rightarrow>
          (case calibration_p s of
             None \<Rightarrow> Inl TypeError
           | Some cp \<Rightarrow>
               if length cp < 6 then Inl IndexError
               else
                 let var_1 = fine / 2 - 64000;
                     var_2 = ((var_1 / 4) * (var_1 / 4)) / 2048;
                     var_2 = var_2 * real_of_int (cp ! 5);
                     var_2 = var_2 + (var_1 * real_of_int (cp ! 4)) * 2;
                     var_2 = var_2 / 4 + real_of_int (cp ! 3) * 65536;
                     var_1 = (real_of_int (cp ! 2) * (((var_1 / 4) * (var_1 / 4)) / 8192)) / 8
                               + (real_of_int (cp ! 1) * var_1) / 2;
                     var_1 = var_1 / 262144;
                     var_1 = ((32768 + var_1) * real_of_int (cp ! 0)) / 32768
                 in if var_1 = 0 then Inr 0
                    else if length cp < 9 then Inl IndexError
                    else
                      let p = ((1048576 - real_of_int adc_p) - var_2 / 4096) * 3125;
                          p = (if p < 2147483648 then (p * 2) / var_1 else (p / var_1) * 2);
                          var_1 = (real_of_int (cp ! 8) * (((p / 8) * (p / 8)) / 8192)) / 4096;
                          var_2 = ((p / 4) * real_of_int (cp ! 7)) / 8192;
                          p = p + (var_1 + var_2 + real_of_int (cp ! 6)) / 16
                      in Inr (p / 100)))"

text \<open>\<^verbatim>\<open>_compensate_humidity\<close>; the result is clamped to the interval from 0 to 100.\<close>

definition compensate_humidity :: "bme280 \<Rightarrow> int \<Rightarrow> py_error + real" where
  "compensate_humidity s adc_h =
     (case temp_fine s of
        None \<Rightarrow> Inl TypeError
      | Some fine \<Rightarrow>
          let var_h = fine - 76800
          in if var_h = 0 then Inr 0
             else
               (case calibration_h s of
                  None \<Rightarrow> Inl TypeError
                | Some ch \<Rightarrow>
                    if length ch < 6 then Inl IndexError
                    else
                      let var_h =
                            (real_of_int adc_h
                               - (real_of_int (ch ! 3) * 64
                                  + real_of_int (ch ! 4) / 16384 * var_h))
                            * (real_of_int (ch ! 1) / 65536
                               * (1 + real_of_int (ch ! 5) / 67108864 * var_h
                                  * (1 + real_of_int (ch ! 2) / 67108864 * var_h)));
                          var_h = var_h * (1 - real_of_int (ch ! 0) * var_h / 524288)
                      in if var_h > 100 then Inr 100
                         else if var_h < 0 then Inr 0
                         else Inr var_h))"

text \<open>
  The conversion the source applies to a raw coefficient with bit 15 set:
  \<^verbatim>\<open>(-v ^ 0xFFFF) + 1\<close>, where the unary minus binds tighter than the exclusive or.
\<close>

definition sign_extend :: "int \<Rightarrow> int" where
  "sign_extend v = (if v AND 0x8000 \<noteq> 0 then ((- v) XOR 0xFFFF) + 1 else v)"

text \<open>The loop \<^verbatim>\<open>for i in range(lo, hi): if c[i] & 0x8000: c[i] = ...\<close> over a table.\<close>

definition sign_extend_range :: "nat \<Rightarrow> nat \<Rightarrow> int list \<Rightarrow> int list" where
  "sign_extend_range lo hi c = fold (\<lambda>i c. c[i := sign_extend (c ! i)]) [lo..<hi] c"

text \<open>
  \<^verbatim>\<open>_populate_calibration_data\<close>. The 32 raw bytes are the registers 0x88 to 0x9F, 0xA1 and
  0xE1 to 0xE7. A failed read is caught here: the method returns and leaves the three
  tables as they were, without telling its caller.
\<close>

definition calibration_registers :: "int list" where
  "calibration_registers = map int [0x88..<0x88 + 24] @ [0xA1] @ map int [0xE1..<0xE1 + 7]"

definition populate_calibration_data :: "bme280 \<Rightarrow> bus \<Rightarrow> trace \<Rightarrow> bme280 \<times> trace" where
  "populate_calibration_data s b tr =
     (case read_registers b (i2c_add s) calibration_registers tr of
        (None, tr1) \<Rightarrow> (s, tr1)
      | (Some raw_data, tr1) \<Rightarrow>
          let ct = [push_bit 8 (raw_data ! 1) OR raw_data ! 0,
                    push_bit 8 (raw_data ! 3) OR raw_data ! 2,
                    push_bit 8 (raw_data ! 5) OR raw_data ! 4];
              cp = (if with_pressure s
                    then [push_bit 8 (raw_data ! 7) OR raw_data ! 6,
                          push_bit 8 (raw_data ! 9) OR raw_data ! 8,
                          push_bit 8 (raw_data ! 11) OR raw_data ! 10,
                          push_bit 8 (raw_data ! 13) OR raw_data ! 12,
                          push_bit 8 (raw_data ! 15) OR raw_data ! 14,
                          push_bit 8 (raw_data ! 17) OR raw_data ! 16,
                          push_bit 8 (raw_data ! 19) OR raw_data ! 18,
                          push_bit 8 (raw_data ! 21) OR raw_data ! 20,
                          push_bit 8 (raw_data ! 23) OR raw_data ! 22]
                    else []);
              ch = (if with_humidity s
                    then [raw_data ! 24,
                          push_bit 8 (raw_data ! 26) OR raw_data ! 25,
                          raw_data ! 27,
                          push_bit 4 (raw_data ! 28) OR (0x0F AND raw_data ! 29),
                          push_bit 4 (raw_data ! 30) OR (drop_bit 4 (raw_data ! 29) AND 0x0F),
                          raw_data ! 31]
                    else []);
              ct = sign_extend_range 1 2 ct;
              cp = (if with_pressure s then sign_extend_range 1 8 cp else cp);
              ch = (if with_humidity s then sign_extend_range 0 6 ch else ch)
          in (s\<lparr>calibration_t := Some ct, calibration_h := Some ch, calibration_p := Some cp\<rparr>,
              tr1))"

text \<open>
  \<^verbatim>\<open>_take_forced_measurement\<close>: one write, then the status register is polled until bit 3
  is clear, with a 5 ms sleep between polls. The loop may run forever; \<open>None\<close> is the run
  that never returns. The inner result is \<open>False\<close> when a bus call raised \<^verbatim>\<open>OSError\<close>.
\<close>

partial_function (option) poll_measuring :: "bus \<Rightarrow> int \<Rightarrow> trace \<Rightarrow> (bool \<times> trace) option" where
  "poll_measuring b a tr =
     (case read_byte_data b tr a 0xF3 of
        (None, tr1) \<Rightarrow> Some (False, tr1)
      | (Some v, tr1) \<Rightarrow>
          if v AND 0x08 \<noteq> 0 then poll_measuring b a (sleep tr1 0.005)
          else Some (True, tr1))"

declare poll_measuring.simps [code]

definition take_forced_measurement :: "bme280 \<Rightarrow> bus \<Rightarrow> trace \<Rightarrow> (bool \<times> trace) option" where
  "take_forced_measurement s b tr =
     (case write_byte_data b tr (i2c_add s) 0xF4 (ctrl_meas_reg s) of
        (False, tr1) \<Rightarrow> Some (False, tr1)
      | (True, tr1) \<Rightarrow> poll_measuring b (i2c_add s) tr1)"

text \<open>
  The \<^verbatim>\<open>try\<close> block of \<^verbatim>\<open>update\<close>, in two parts. First the three configuration writes and
  the calibration read, done on the first reading and after a bad sample; \<open>False\<close> is an
  \<^verbatim>\<open>OSError\<close> raised by one of the writes.
\<close>

definition configure :: "bme280 \<Rightarrow> bus \<Rightarrow> trace \<Rightarrow> bool \<times> bme280 \<times> trace" where
  "configure s b tr =
     (case write_byte_data b tr (i2c_add s) 0xF2 (ctrl_hum_reg s) of
        (False, tr1) \<Rightarrow> (False, s, tr1)
      | (True, tr1) \<Rightarrow>
          (case write_byte_data b tr1 (i2c_add s) 0xF5 (config_reg s) of
             (False, tr2) \<Rightarrow> (False, s, tr2)
           | (True, tr2) \<Rightarrow>
               (case write_byte_data b tr2 (i2c_add s) 0xF4 (ctrl_meas_reg s) of
                  (False, tr3) \<Rightarrow> (False, s, tr3)
                | (True, tr3) \<Rightarrow>
                    (case populate_calibration_data s b tr3 of
                       (s1, tr4) \<Rightarrow> (True, s1, tr4)))))"

text \<open>
  Then the whole block: \<open>Some (None, _)\<close> is an \<^verbatim>\<open>OSError\<close> on its way to the handler,
  \<open>Some (Some data, _)\<close> the eight bytes of the registers 0xF7 to 0xFE.
\<close>

definition read_raw_data ::
    "bme280 \<Rightarrow> bus \<Rightarrow> trace \<Rightarrow> bool \<Rightarrow> (int list option \<times> bme280 \<times> trace) option" where
  "read_raw_data s b tr first_reading =
     (case (if first_reading \<or> \<not> ok s then configure s b tr else (True, s, tr)) of
        (False, s1, tr1) \<Rightarrow> Some (None, s1, tr1)
      | (True, s1, tr1) \<Rightarrow>
          (case (if mode s1 = 2 then take_forced_measurement s1 b tr1 else Some (True, tr1)) of
             None \<Rightarrow> None
           | Some (False, tr2) \<Rightarrow> Some (None, s1, tr2)
           | Some (True, tr2) \<Rightarrow>
               (case read_registers b (i2c_add s1) (map int [0xF7..<0xF7 + 8]) tr2 of
                  (None, tr3) \<Rightarrow> Some (None, s1, tr3)
                | (Some data, tr3) \<Rightarrow> Some (Some data, s1, tr3))))"

text \<open>
  The part of \<^verbatim>\<open>update\<close> after the handler, one definition per channel. An exception of
  a compensation formula leaves the method at that point.
\<close>

definition update_temperature :: "bme280 \<Rightarrow> int \<Rightarrow> py_error + bme280" where
  "update_temperature s temp_raw =
     (case compensate_temperature s temp_raw of
        Inl e \<Rightarrow> Inl e
      | Inr (t, s1) \<Rightarrow>
          if t \<ge> - 20 \<and> t < 80 then Inr (s1\<lparr>temperature := Some t, ok := True\<rparr>)
          else Inr s1)"

definition update_humidity :: "bme280 \<Rightarrow> int \<Rightarrow> py_error + bme280" where
  "update_humidity s hum_raw =
     (if with_humidity s
      then (case compensate_humidity s hum_raw of
              Inl e \<Rightarrow> Inl e
            | Inr h \<Rightarrow>
                if h \<ge> 0 \<and> h \<le> 100 then Inr (s\<lparr>humidity := Some h\<rparr>)
                else Inr (s\<lparr>ok := False\<rparr>))
      else Inr s)"

definition update_pressure :: "bme280 \<Rightarrow> int \<Rightarrow> py_error + bme280" where
  "update_pressure s pres_raw =
     (if with_pressure s
      then (case compensate_pressure s pres_raw of
              Inl e \<Rightarrow> Inl e
            | Inr p \<Rightarrow>
                if p > 100 then Inr (s\<lparr>pressure := Some p\<rparr>)
                else Inr (s\<lparr>ok := False\<rparr>))
      else Inr s)"

definition pres_raw_of :: "int list \<Rightarrow> int" where
  "pres_raw_of data = push_bit 12 (data ! 0) OR push_bit 4 (data ! 1) OR drop_bit 4 (data ! 2)"

definition temp_raw_of :: "int list \<Rightarrow> int" where
  "temp_raw_of data = push_bit 12 (data ! 3) OR push_bit 4 (data ! 4) OR drop_bit 4 (data ! 5)"

definition hum_raw_of :: "int list \<Rightarrow> int" where
  "hum_raw_of data = push_bit 8 (data ! 6) OR data ! 7"

text \<open>
  The first component of the result is the exception that leaves the method, if any; the
  second is the driver as the method left it.
\<close>

definition store_sample :: "bme280 \<Rightarrow> int list \<Rightarrow> py_error option \<times> bme280" where
  "store_sample s data =
     (let s0 = s\<lparr>ok := False\<rparr>
      in case update_temperature s0 (temp_raw_of data) of
           Inl e \<Rightarrow> (Some e, s0)
         | Inr s1 \<Rightarrow>
             (case update_humidity s1 (hum_raw_of data) of
                Inl e \<Rightarrow> (Some e, s1)
              | Inr s2 \<Rightarrow>
                  (case update_pressure s2 (pres_raw_of data) of
                     Inl e \<Rightarrow> (Some e, s2)
                   | Inr s3 \<Rightarrow> (None, s3))))"

text \<open>
  \<^verbatim>\<open>BME280.update\<close>. The handler catches \<^verbatim>\<open>OSError\<close> only: it clears the flag and returns.
  \<open>None\<close> is the run that never returns (forced mode, device always busy).
\<close>

definition update ::
    "bme280 \<Rightarrow> bus \<Rightarrow> trace \<Rightarrow> bool \<Rightarrow> (py_error option \<times> bme280 \<times> trace) option" where
  "update s b tr first_reading =
     (case read_raw_data s b tr first_reading of
        None \<Rightarrow> None
      | Some (None, s1, tr1) \<Rightarrow> Some (None, s1\<lparr>ok := False\<rparr>, tr1)
      | Some (Some data, s1, tr1) \<Rightarrow>
          (case store_sample s1 data of (e, s2) \<Rightarrow> Some (e, s2, tr1)))"

text \<open>
  \<^verbatim>\<open>BME280.__init__\<close> with the address already parsed; it ends with \<^verbatim>\<open>self.update(True)\<close>,
  so an exception of that call is an exception of the constructor.
\<close>

definition BME280 ::
    "bus \<Rightarrow> trace \<Rightarrow> int \<Rightarrow> int \<Rightarrow> int \<Rightarrow> int \<Rightarrow> int \<Rightarrow> int \<Rightarrow> int \<Rightarrow> real \<Rightarrow> int
      \<Rightarrow> (py_error option \<times> bme280 \<times> trace) option" where
  "BME280 b tr i2c_address osrs_t osrs_p osrs_h mode' t_sb filter_mode delta_temp' spi3w_en =
     update
       \<lparr>i2c_add = i2c_address, ok = False, mode = mode',
        ctrl_meas_reg = push_bit 5 osrs_t OR push_bit 2 osrs_p OR mode',
        config_reg = push_bit 5 t_sb OR push_bit 2 filter_mode OR spi3w_en,
        ctrl_hum_reg = osrs_h,
        delta_temp = delta_temp',
        with_pressure = (osrs_p > 0), with_humidity = (osrs_h > 0),
        calibration_t = None, calibration_h = None, calibration_p = None,
        temp_fine = None, temperature = None, humidity = None, pressure = None\<rparr>
       b tr True"

section \<open>BH1750: light level\<close>

definition CONTINUOUS_LOW_RES_MODE :: string where
  "CONTINUOUS_LOW_RES_MODE = ''continuous_low_res_mode''"
definition CONTINUOUS_HIGH_RES_MODE_1 :: string where
  "CONTINUOUS_HIGH_RES_MODE_1 = ''continuous_high_res_mode_1''"
definition CONTINUOUS_HIGH_RES_MODE_2 :: string where
  "CONTINUOUS_HIGH_RES_MODE_2 = ''continuous_high_res_mode_2''"
definition ONE_TIME_HIGH_RES_MODE_1 :: string where
  "ONE_TIME_HIGH_RES_MODE_1 = ''one_time_high_res_mode_1''"
definition ONE_TIME_HIGH_RES_MODE_2 :: string where
  "ONE_TIME_HIGH_RES_MODE_2 = ''one_time_high_res_mode_2''"
definition ONE_TIME_LOW_RES_MODE :: string where
  "ONE_TIME_LOW_RES_MODE = ''one_time_low_res_mode''"

definition OPERATION_MODES :: "string \<rightharpoonup> int \<times> bool" where
  "OPERATION_MODES = map_of
     [(CONTINUOUS_LOW_RES_MODE, (0x13, True)),
      (CONTINUOUS_HIGH_RES_MODE_1, (0x10, True)),
      (CONTINUOUS_HIGH_RES_MODE_2, (0x11, True)),
      (ONE_TIME_LOW_RES_MODE, (0x23, False)),
      (ONE_TIME_HIGH_RES_MODE_1, (0x20, False)),
      (ONE_TIME_HIGH_RES_MODE_2, (0x21, False))]"

definition POWER_DOWN :: int where "POWER_DOWN = 0x00"
definition POWER_ON :: int where "POWER_ON = 0x01"
definition RESET :: int where "RESET = 0x07"

text \<open>
  \<open>bh_mode\<close> is the attribute \<^verbatim>\<open>_mode\<close>, the command last sent to the device. It and
  \<open>mtreg\<close> start as \<^verbatim>\<open>None\<close>. The attribute \<^verbatim>\<open>_light_level\<close> is created with the value -1
  right before the constructor's call of \<^verbatim>\<open>update\<close>, and nothing reads it earlier.
\<close>

record bh1750 = i2c_base +
  bh_mode :: "int option"
  delay :: real
  operation_mode :: int
  continuous_sampling :: bool
  high_res :: bool
  low_res :: bool
  mtreg :: "int option"
  light_level_raw :: real

definition set_mode :: "bh1750 \<Rightarrow> bus \<Rightarrow> trace \<Rightarrow> int \<Rightarrow> bh1750 \<times> trace" where
  "set_mode s b tr m =
     (case write_byte b tr (i2c_add s) m of
        (r, tr1) \<Rightarrow> (s\<lparr>bh_mode := Some m, ok := r\<rparr>, tr1))"

definition power_down :: "bh1750 \<Rightarrow> bus \<Rightarrow> trace \<Rightarrow> bh1750 \<times> trace" where
  "power_down s b tr = set_mode s b tr POWER_DOWN"

definition power_on :: "bh1750 \<Rightarrow> bus \<Rightarrow> trace \<Rightarrow> bh1750 \<times> trace" where
  "power_on s b tr = set_mode s b tr POWER_ON"

definition reset :: "bh1750 \<Rightarrow> bus \<Rightarrow> trace \<Rightarrow> bh1750 \<times> trace" where
  "reset s b tr = (case power_on s b tr of (s1, tr1) \<Rightarrow> set_mode s1 b tr1 RESET)"

definition set_sensitivity :: "bh1750 \<Rightarrow> bus \<Rightarrow> trace \<Rightarrow> int \<Rightarrow> bh1750 \<times> trace" where
  "set_sensitivity s b tr sensitivity =
     (let m = (if sensitivity < 31 then 31 else if sensitivity > 254 then 254 else sensitivity);
          s0 = s\<lparr>mtreg := Some m\<rparr>
      in case power_on s0 b tr of
           (s1, tr1) \<Rightarrow>
             (case set_mode s1 b tr1 (0x40 OR drop_bit 5 m) of
                (s2, tr2) \<Rightarrow>
                  (case set_mode s2 b tr2 (0x60 OR (m AND 0x1f)) of
                     (s3, tr3) \<Rightarrow> power_down s3 b tr3)))"

text \<open>
  \<^verbatim>\<open>_get_result\<close>. A failed read gives -1. Otherwise the word is byte-swapped and scaled;
  dividing by a zero float raises \<^verbatim>\<open>ZeroDivisionError\<close>, arithmetic on \<^verbatim>\<open>None\<close> raises
  \<^verbatim>\<open>TypeError\<close> (and so does a register that is \<^verbatim>\<open>None\<close>, which the transport refuses).
\<close>

definition get_result :: "bh1750 \<Rightarrow> bus \<Rightarrow> trace \<Rightarrow> (py_error + real) \<times> bh1750 \<times> trace" where
  "get_result s b tr =
     (case bh_mode s of
        None \<Rightarrow> (Inl TypeError, s, tr)
      | Some m \<Rightarrow>
          (case read_word_data b tr (i2c_add s) m of
             (None, tr1) \<Rightarrow> (Inr (- 1), s\<lparr>ok := False\<rparr>, tr1)
           | (Some data, tr1) \<Rightarrow>
               let s1 = s\<lparr>ok := True\<rparr>;
                   count = drop_bit 8 data OR push_bit 8 (data AND 0xff);
                   mode2coeff = (if high_res s then 2 else 1 :: real)
               in (case mtreg s of
                     None \<Rightarrow> (Inl TypeError, s1, tr1)
                   | Some mt \<Rightarrow>
                       let d = 1.2 * (real_of_int mt / 69) * mode2coeff
                       in if d = 0 then (Inl ZeroDivisionError, s1, tr1)
                          else (Inr ((1 / d) * real_of_int count), s1, tr1))))"

text \<open>\<^verbatim>\<open>_wait_for_result\<close>; \<^verbatim>\<open>sleep\<close> raises \<^verbatim>\<open>ValueError\<close> on a negative duration.\<close>

definition wait_for_result :: "bh1750 \<Rightarrow> trace \<Rightarrow> py_error + trace" where
  "wait_for_result s tr =
     (let basetime = (if low_res s then 0.018 else 0.128 :: real)
      in case mtreg s of
           None \<Rightarrow> Inl TypeError
         | Some mt \<Rightarrow>
             let t = basetime * (real_of_int mt / 69) + delay s
             in if t < 0 then Inl ValueError else Inr (sleep tr t))"

text \<open>The test at the head of \<^verbatim>\<open>BH1750.update\<close>.\<close>

definition needs_rearm :: "bh1750 \<Rightarrow> bool" where
  "needs_rearm s \<longleftrightarrow>
     \<not> continuous_sampling s \<or> light_level_raw s < 0 \<or> Some (operation_mode s) \<noteq> bh_mode s"

definition rearm :: "bh1750 \<Rightarrow> bus \<Rightarrow> trace \<Rightarrow> (py_error option) \<times> bh1750 \<times> trace" where
  "rearm s b tr =
     (case reset s b tr of
        (s1, tr1) \<Rightarrow>
          (case set_mode s1 b tr1 (operation_mode s1) of
             (s2, tr2) \<Rightarrow>
               (case wait_for_result s2 tr2 of
                  Inl e \<Rightarrow> (Some e, s2, tr2)
                | Inr tr3 \<Rightarrow> (None, s2, tr3))))"

text \<open>
  \<^verbatim>\<open>BH1750.update\<close>. The first component is the exception that leaves the method, if any.
\<close>

definition bh_update :: "bh1750 \<Rightarrow> bus \<Rightarrow> trace \<Rightarrow> py_error option \<times> bh1750 \<times> trace" where
  "bh_update s b tr =
     (case (if needs_rearm s then rearm s b tr else (None, s, tr)) of
        (Some e, s1, tr1) \<Rightarrow> (Some e, s1, tr1)
      | (None, s1, tr1) \<Rightarrow>
          (case get_result s1 b tr1 of
             (Inl e, s2, tr2) \<Rightarrow> (Some e, s2, tr2)
           | (Inr v, s2, tr2) \<Rightarrow>
               let s3 = s2\<lparr>light_level_raw := v\<rparr>
               in if \<not> continuous_sampling s3
                  then (case power_down s3 b tr2 of (s4, tr3) \<Rightarrow> (None, s4, tr3))
                  else (None, s3, tr2)))"

text \<open>
  Python's \<^verbatim>\<open>round(x, n)\<close> for \<open>n \<ge> 0\<close>: to the nearest multiple of \<open>10^-n\<close>, a tie to the
  even one.
\<close>

definition round_half_even :: "real \<Rightarrow> int" where
  "round_half_even x =
     (let f = \<lfloor>x\<rfloor>; r = x - real_of_int f
      in if r < 1 / 2 then f
         else if r > 1 / 2 then f + 1
         else if even f then f else f + 1)"

definition py_round :: "real \<Rightarrow> nat \<Rightarrow> real" where
  "py_round x n = real_of_int (round_half_even (x * 10 ^ n)) / 10 ^ n"

definition light_level :: "bh1750 \<Rightarrow> real" where
  "light_level s = py_round (light_level_raw s) (if high_res s then 1 else 0)"

text \<open>
  \<^verbatim>\<open>BH1750.__init__\<close>: an unknown mode name raises \<^verbatim>\<open>KeyError\<close> before any bus traffic; an
  exception of the closing \<^verbatim>\<open>update\<close> leaves the constructor too.
\<close>

definition BH1750 ::
    "bus \<Rightarrow> trace \<Rightarrow> int \<Rightarrow> string \<Rightarrow> real \<Rightarrow> int \<Rightarrow> (py_error + bh1750) \<times> trace" where
  "BH1750 b tr i2c_address operation_mode' measurement_delay sensitivity =
     (case OPERATION_MODES operation_mode' of
        None \<Rightarrow> (Inl KeyError, tr)
      | Some (code, continuous_flag) \<Rightarrow>
          let s0 = \<lparr>i2c_add = i2c_address, ok = False,
                    bh_mode = None,
                    delay = measurement_delay / 1000,
                    operation_mode = code,
                    continuous_sampling = continuous_flag,
                    high_res = (code AND 0x03 = 0x01),
                    low_res = (code AND 0x03 = 0x03),
                    mtreg = None,
                    light_level_raw = - 1\<rparr>
          in case power_down s0 b tr of
               (s1, tr1) \<Rightarrow>
                 (case set_sensitivity s1 b tr1 sensitivity of
                    (s2, tr2) \<Rightarrow>
                      (case bh_update s2 b tr2 of
                         (Some e, s3, tr3) \<Rightarrow> (Inl e, tr3)
                       | (None, s3, tr3) \<Rightarrow> (Inr s3, tr3))))"

section \<open>HTU21D: temperature and humidity\<close>

definition CMD_READ_TEMP_HOLD :: int where "CMD_READ_TEMP_HOLD = 0xE3"
definition CMD_READ_HUM_HOLD :: int where "CMD_READ_HUM_HOLD = 0xE5"
definition CMD_READ_TEMP_NOHOLD :: int where "CMD_READ_TEMP_NOHOLD = 0xF3"
definition CMD_READ_HUM_NOHOLD :: int where "CMD_READ_HUM_NOHOLD = 0xF5"
definition CMD_SOFT_RESET :: int where "CMD_SOFT_RESET = 0xFE"
definition MEASUREMENT_WAIT_TIME :: real where "MEASUREMENT_WAIT_TIME = 0.055"

record htu21d = i2c_base +
  htu_temperature :: real
  htu_humidity :: real

definition soft_reset :: "htu21d \<Rightarrow> bus \<Rightarrow> trace \<Rightarrow> bool \<times> trace" where
  "soft_reset s b tr =
     (case write_byte b tr (i2c_add s) CMD_SOFT_RESET of
        (False, tr1) \<Rightarrow> (False, tr1)
      | (True, tr1) \<Rightarrow> (True, sleep tr1 MEASUREMENT_WAIT_TIME))"

definition calc_temp :: "int \<Rightarrow> real" where
  "calc_temp sensor_temp = - 46.85 + 175.72 * (real_of_int sensor_temp / 65536)"

definition calc_humid :: "int \<Rightarrow> real" where
  "calc_humid sensor_humid = - 6 + 125 * (real_of_int sensor_humid / 65536)"

definition temp_coefficient :: "real \<Rightarrow> real \<Rightarrow> real" where
  "temp_coefficient rh_actual temp_actual = rh_actual - 0.15 * (25 - temp_actual)"

text \<open>
  \<^verbatim>\<open>_crc8check\<close>. One round of the loop tests bit \<open>23 - i\<close> of the remainder and halves the
  divisor; the pair is (remainder, divisor).
\<close>

definition crc8_round :: "nat \<Rightarrow> int \<times> int \<Rightarrow> int \<times> int" where
  "crc8_round i rd =
     (case rd of (remainder, divisor) \<Rightarrow>
        ((if remainder AND push_bit (23 - i) 1 \<noteq> 0 then remainder XOR divisor else remainder),
         drop_bit 1 divisor))"

definition crc8_remainder :: "int \<Rightarrow> int" where
  "crc8_remainder v = fst (fold crc8_round [0..<16] (v, 0x988000))"

definition crc8check :: "int list \<Rightarrow> py_error + bool" where
  "crc8check value =
     (if length value < 3 then Inl IndexError
      else
        let remainder = push_bit 8 (push_bit 8 (value ! 0) + value ! 1);
            remainder = remainder OR value ! 2
        in Inr (crc8_remainder remainder = 0))"

text \<open>
  The check in the words of the specification: the 24-bit value leaves the remainder zero
  in the division by the polynomial 0x0131 over GF(2), that is, it is the product of the
  polynomial and a quotient of degree below 16. \<open>gf2_times q p\<close> is that product, the
  sum without carries of the copies of \<open>p\<close> shifted to the set bits of \<open>q\<close>.
\<close>

fun gf2_mult_upto :: "nat \<Rightarrow> int \<Rightarrow> int \<Rightarrow> int" where
  "gf2_mult_upto 0 q p = 0"
| "gf2_mult_upto (Suc n) q p = gf2_mult_upto n q p XOR (if bit q n then push_bit n p else 0)"

definition gf2_times :: "int \<Rightarrow> int \<Rightarrow> int" where
  "gf2_times q p = gf2_mult_upto 16 q p"

text \<open>\<^verbatim>\<open>HTU21D.sample_ok\<close> overrides the one of the base class.\<close>

definition htu_sample_ok :: "htu21d \<Rightarrow> bool" where
  "htu_sample_ok s \<longleftrightarrow> ok s \<and> htu_temperature s > - 100 \<and> htu_humidity s > - 1"

text \<open>
  The \<^verbatim>\<open>try\<close> block of \<^verbatim>\<open>HTU21D.update\<close>: \<open>None\<close> is an \<^verbatim>\<open>OSError\<close>, otherwise the two
  blocks read.
\<close>

definition read_blocks :: "htu21d \<Rightarrow> bus \<Rightarrow> trace \<Rightarrow> (int list \<times> int list) option \<times> trace" where
  "read_blocks s b tr =
     (case write_byte b tr (i2c_add s) CMD_READ_TEMP_NOHOLD of
        (False, tr1) \<Rightarrow> (None, tr1)
      | (True, tr1) \<Rightarrow>
          (case read_i2c_block_data b (sleep tr1 MEASUREMENT_WAIT_TIME) (i2c_add s)
                  CMD_READ_TEMP_HOLD 3 of
             (None, tr2) \<Rightarrow> (None, tr2)
           | (Some buf_t, tr2) \<Rightarrow>
               (case write_byte b tr2 (i2c_add s) CMD_READ_HUM_NOHOLD of
                  (False, tr3) \<Rightarrow> (None, tr3)
                | (True, tr3) \<Rightarrow>
                    (case read_i2c_block_data b (sleep tr3 MEASUREMENT_WAIT_TIME) (i2c_add s)
                            CMD_READ_HUM_HOLD 3 of
                       (None, tr4) \<Rightarrow> (None, tr4)
                     | (Some buf_h, tr4) \<Rightarrow> (Some (buf_t, buf_h), tr4)))))"

text \<open>The part of \<^verbatim>\<open>HTU21D.update\<close> after the handler.\<close>

definition store_blocks :: "htu21d \<Rightarrow> int list \<Rightarrow> int list \<Rightarrow> py_error option \<times> htu21d" where
  "store_blocks s buf_t buf_h =
     (case crc8check buf_t of
        Inl e \<Rightarrow> (Some e, s)
      | Inr False \<Rightarrow> (None, s\<lparr>htu_temperature := - 255, ok := False\<rparr>)
      | Inr True \<Rightarrow>
          let temp = (push_bit 8 (buf_t ! 0) OR buf_t ! 1) AND 0xFFFC;
              s1 = s\<lparr>htu_temperature := calc_temp temp\<rparr>
          in (case crc8check buf_h of
                Inl e \<Rightarrow> (Some e, s1)
              | Inr False \<Rightarrow> (None, s1\<lparr>htu_humidity := - 255, ok := False\<rparr>)
              | Inr True \<Rightarrow>
                  let humid = (push_bit 8 (buf_h ! 0) OR buf_h ! 1) AND 0xFFFC;
                      rh_actual = calc_humid humid;
                      rh_final = temp_coefficient rh_actual (htu_temperature s1);
                      rh_final = (if rh_final > 100 then 100 else rh_final);
                      rh_final = (if rh_final < 0 then 0 else rh_final)
                  in (None, s1\<lparr>htu_humidity := rh_final\<rparr>)))"

definition htu_update :: "htu21d \<Rightarrow> bus \<Rightarrow> trace \<Rightarrow> py_error option \<times> htu21d \<times> trace" where
  "htu_update s b tr =
     (case read_blocks s b tr of
        (None, tr1) \<Rightarrow> (None, s\<lparr>ok := False\<rparr>, tr1)
      | (Some (buf_t, buf_h), tr1) \<Rightarrow>
          (case store_blocks s buf_t buf_h of (e, s1) \<Rightarrow> (e, s1, tr1)))"

text \<open>\<^verbatim>\<open>HTU21D.__init__\<close>; the address is the constant 0x40.\<close>

definition HTU21D :: "bus \<Rightarrow> trace \<Rightarrow> py_error option \<times> htu21d \<times> trace" where
  "HTU21D b tr =
     (let s0 = \<lparr>i2c_add = 0x40, ok = False, htu_temperature = - 255, htu_humidity = - 255\<rparr>
      in case soft_reset s0 b tr of
           (r, tr1) \<Rightarrow>
             let s1 = s0\<lparr>ok := r\<rparr>
             in if ok s1 then htu_update s1 b tr1 else (None, s1, tr1))"

section \<open>Instances of the BH1750 driver\<close>

text \<open>
  The values fixed by the constructor, and the drivers a caller can hold: one is made by
  the constructor for a mode name and then goes through any number of calls of
  \<^verbatim>\<open>update\<close> and \<^verbatim>\<open>set_sensitivity\<close>.
\<close>

definition bh_config :: "bh1750 \<Rightarrow> int \<times> real \<times> int \<times> bool \<times> bool \<times> bool" where
  "bh_config s =
     (i2c_add s, delay s, operation_mode s, continuous_sampling s, high_res s, low_res s)"

inductive bh_instance :: "bus \<Rightarrow> string \<Rightarrow> bh1750 \<times> trace \<Rightarrow> bool" for b om where
  created: "BH1750 b tr a om d sens = (Inr s, tr') \<Longrightarrow> bh_instance b om (s, tr')"
| updated: "bh_instance b om (s, tr) \<Longrightarrow> bh_update s b tr = (e, s', tr')
     \<Longrightarrow> bh_instance b om (s', tr')"
| sensitivity_set: "bh_instance b om (s, tr) \<Longrightarrow> set_sensitivity s b tr sens = (s', tr')
     \<Longrightarrow> bh_instance b om (s', tr')"

section \<open>Scripted devices\<close>

text \<open>
  A device whose registers hold fixed values; every write succeeds, a register without a
  value cannot be read, and block reads are not served.
\<close>

definition register_bus :: "(int \<Rightarrow> int option) \<Rightarrow> bus" where
  "register_bus regs =
     \<lparr>bus_write_byte = (\<lambda>tr a v. True),
      bus_write_byte_data = (\<lambda>tr a reg v. True),
      bus_read_byte_data = (\<lambda>tr a reg. regs reg),
      bus_read_word_data = (\<lambda>tr a reg. regs reg),
      bus_read_i2c_block_data = (\<lambda>tr a reg n. None)\<rparr>"

definition unreadable_calibration :: "int \<Rightarrow> int option" where
  "unreadable_calibration reg = (if reg = 0x88 then None else Some 0)"

definition negative_T3_P9 :: "int \<Rightarrow> int option" where
  "negative_T3_P9 reg =
     (if reg = 0x8A \<or> reg = 0x8C \<or> reg = 0x9C \<or> reg = 0x9E then Some 0x01
      else if reg = 0x8B \<or> reg = 0x8D \<or> reg = 0x9D \<or> reg = 0x9F then Some 0x80
      else Some 0)"

definition minus20_registers :: "int \<Rightarrow> int option" where
  "minus20_registers reg =
     (if reg = 0x8B then Some 0x9C else if reg = 0xFA then Some 0x10 else Some 0)"

definition plus80_registers :: "int \<Rightarrow> int option" where
  "plus80_registers reg =
     (if reg = 0x8B then Some 0x32 else if reg = 0xFA then Some 0x80 else Some 0)"

text \<open>
  A device whose only non-zero register is the low byte of dig_P1: the temperature is 0,
  the humidity 0 and the pressure 65536000, all three inside their ranges.
\<close>

definition unit_P1_registers :: "int \<Rightarrow> int option" where
  "unit_P1_registers reg = (if reg = 0x8E then Some 1 else Some 0)"

definition zero_registers :: "int \<Rightarrow> int option" where
  "zero_registers reg = Some 0"

definition fixed_word :: "int \<Rightarrow> int \<Rightarrow> int option" where
  "fixed_word w reg = Some w"

text \<open>
  A light sensor whose second word read fails: the number of word reads already in the
  event list decides the answer.
\<close>

definition second_read_fails :: bus where
  "second_read_fails =
     \<lparr>bus_write_byte = (\<lambda>tr a v. True),
      bus_write_byte_data = (\<lambda>tr a reg v. True),
      bus_read_byte_data = (\<lambda>tr a reg. None),
      bus_read_word_data =
        (\<lambda>tr a reg.
           if length (filter (\<lambda>ev. case ev of Read_word_data _ _ _ \<Rightarrow> True | _ \<Rightarrow> False) tr) = 1
           then None else Some 0x7800),
      bus_read_i2c_block_data = (\<lambda>tr a reg n. None)\<rparr>"

text \<open>A humidity sensor that answers the temperature and the humidity read with fixed blocks.\<close>

definition block_device :: "int list \<Rightarrow> int list \<Rightarrow> bus" where
  "block_device t h =
     \<lparr>bus_write_byte = (\<lambda>tr a v. True),
      bus_write_byte_data = (\<lambda>tr a reg v. True),
      bus_read_byte_data = (\<lambda>tr a reg. None),
      bus_read_word_data = (\<lambda>tr a reg. None),
      bus_read_i2c_block_data = (\<lambda>tr a reg n. if reg = CMD_READ_TEMP_HOLD then Some t else Some h)\<rparr>"

section \<open>Properties of the BME280 driver\<close>

lemma populate_shape:
  assumes "populate_calibration_data s b tr = (s1, tr1)"
  shows "\<exists>ct ch cp. s1 = s\<lparr>calibration_t := ct, calibration_h := ch, calibration_p := cp\<rparr>"
proof (cases "read_registers b (i2c_add s) calibration_registers tr")
  case (Pair r tr')
  show ?thesis
  proof (cases r)
    case None
    with Pair assms have "s1 = s" by (simp add: populate_calibration_data_def)
    then have "s1 = s\<lparr>calibration_t := calibration_t s, calibration_h := calibration_h s,
      calibration_p := calibration_p s\<rparr>" by simp
    then show ?thesis by blast
  next
    case (Some raw)
    with Pair assms show ?thesis
      unfolding populate_calibration_data_def Let_def
      by (simp only: prod.case option.case prod.inject) blast
  qed
qed

lemma configure_shape:
  assumes "configure s b tr = (r, s1, tr1)"
  shows "\<exists>ct ch cp. s1 = s\<lparr>calibration_t := ct, calibration_h := ch, calibration_p := cp\<rparr>"
proof -
  have triv: "s = s\<lparr>calibration_t := calibration_t s, calibration_h := calibration_h s,
      calibration_p := calibration_p s\<rparr>" by simp
  consider "s1 = s" | tr3 tr4 where "populate_calibration_data s b tr3 = (s1, tr4)"
    using assms unfolding configure_def
    by (auto split: prod.splits bool.splits)
  then show ?thesis
  proof cases
    case 1 with triv show ?thesis by blast
  next
    case 2 then show ?thesis by (rule populate_shape)
  qed
qed

lemma read_raw_data_shape:
  assumes "read_raw_data s b tr fr = Some (r, s1, tr1)"
  shows "\<exists>ct ch cp. s1 = s\<lparr>calibration_t := ct, calibration_h := ch, calibration_p := cp\<rparr>"
proof -
  have triv: "s = s\<lparr>calibration_t := calibration_t s, calibration_h := calibration_h s,
      calibration_p := calibration_p s\<rparr>" by simp
  obtain c sc trc where c: "(if fr \<or> \<not> ok s then configure s b tr else (True, s, tr)) = (c, sc, trc)"
    by (cases "if fr \<or> \<not> ok s then configure s b tr else (True, s, tr)") auto
  have sc: "\<exists>ct ch cp. sc = s\<lparr>calibration_t := ct, calibration_h := ch, calibration_p := cp\<rparr>"
  proof (cases "fr \<or> \<not> ok s")
    case True
    with c have "configure s b tr = (c, sc, trc)" by simp
    then show ?thesis by (rule configure_shape)
  next
    case False
    with c have "sc = s" by simp
    with triv show ?thesis by blast
  qed
  have "s1 = sc"
    using assms c unfolding read_raw_data_def
    by (simp split: prod.splits bool.splits option.splits if_splits)
  with sc show ?thesis by simp
qed

lemma compensate_temperature_shape:
  "compensate_temperature s a = Inr (T, s2) \<Longrightarrow> \<exists>f. s2 = s\<lparr>temp_fine := f\<rparr>"
  by (auto simp: compensate_temperature_def Let_def split: option.splits if_splits)

lemma update_temperature_result:
  assumes "compensate_temperature (s1\<lparr>ok := False\<rparr>) a = Inr (T, s2)"
  shows "\<exists>sa. update_temperature (s1\<lparr>ok := False\<rparr>) a = Inr sa
     \<and> temperature sa = (if - 20 \<le> T \<and> T < 80 then Some T else temperature s1)
     \<and> ok sa = (- 20 \<le> T \<and> T < 80)
     \<and> humidity sa = humidity s1 \<and> pressure sa = pressure s1
     \<and> with_humidity sa = with_humidity s1 \<and> with_pressure sa = with_pressure s1"
proof -
  from compensate_temperature_shape [OF assms] obtain f where
    s2: "s2 = s1\<lparr>ok := False, temp_fine := f\<rparr>" by auto
  show ?thesis
    by (simp add: update_temperature_def assms s2)
qed

lemma update_humidity_result:
  assumes "update_humidity s a = Inr s'"
  shows "temperature s' = temperature s \<and> pressure s' = pressure s
     \<and> (ok s' \<longrightarrow> ok s) \<and> (\<not> with_humidity s \<longrightarrow> ok s' = ok s \<and> humidity s' = humidity s)
     \<and> with_pressure s' = with_pressure s
     \<and> (humidity s' = humidity s \<or> (\<exists>h. humidity s' = Some h \<and> 0 \<le> h \<and> h \<le> 100))"
  using assms
  by (auto simp: update_humidity_def split: if_splits sum.splits)

lemma update_pressure_result:
  assumes "update_pressure s a = Inr s'"
  shows "temperature s' = temperature s \<and> humidity s' = humidity s
     \<and> (ok s' \<longrightarrow> ok s) \<and> (\<not> with_pressure s \<longrightarrow> ok s' = ok s \<and> pressure s' = pressure s)
     \<and> (pressure s' = pressure s \<or> (\<exists>p. pressure s' = Some p \<and> p > 100))"
  using assms
  by (auto simp: update_pressure_def split: if_splits sum.splits)


lemma store_sample_temperature:
  assumes ct: "compensate_temperature (s1\<lparr>ok := False\<rparr>) (temp_raw_of data) = Inr (T, s2)"
  shows "\<exists>e s'. store_sample s1 data = (e, s')
     \<and> temperature s' = (if - 20 \<le> T \<and> T < 80 then Some T else temperature s1)
     \<and> (ok s' \<longrightarrow> - 20 \<le> T \<and> T < 80)
     \<and> (- 20 \<le> T \<and> T < 80 \<and> \<not> with_humidity s1 \<and> \<not> with_pressure s1 \<longrightarrow> ok s' \<and> e = None)"
proof -
  from update_temperature_result [OF ct] obtain sa where
    sa: "update_temperature (s1\<lparr>ok := False\<rparr>) (temp_raw_of data) = Inr sa"
    and ta: "temperature sa = (if - 20 \<le> T \<and> T < 80 then Some T else temperature s1)"
    and oa: "ok sa = (- 20 \<le> T \<and> T < 80)"
    and wa: "with_humidity sa = with_humidity s1" "with_pressure sa = with_pressure s1"
    by blast
  show ?thesis
  proof (cases "update_humidity sa (hum_raw_of data)")
    case (Inl e)
    then have wh: "with_humidity sa"
      by (simp add: update_humidity_def split: if_splits)
    from sa Inl have "store_sample s1 data = (Some e, sa)"
      by (simp add: store_sample_def)
    with ta oa wa wh show ?thesis by simp
  next
    case (Inr sb)
    from update_humidity_result [OF Inr]
    have tb: "temperature sb = temperature sa" and ob: "ok sb \<longrightarrow> ok sa"
      and ob': "\<not> with_humidity sa \<longrightarrow> ok sb = ok sa"
      and wb: "with_pressure sb = with_pressure sa"
      by blast+
    show ?thesis
    proof (cases "update_pressure sb (pres_raw_of data)")
      case (Inl e)
      then have wp: "with_pressure sb"
        by (simp add: update_pressure_def split: if_splits)
      from sa \<open>update_humidity sa (hum_raw_of data) = Inr sb\<close> Inl
      have "store_sample s1 data = (Some e, sb)"
        by (simp add: store_sample_def)
      with ta oa wa wp tb ob wb show ?thesis by simp
    next
      case (Inr sc)
      from update_pressure_result [OF Inr]
      have tc: "temperature sc = temperature sb" and oc: "ok sc \<longrightarrow> ok sb"
        and oc': "\<not> with_pressure sb \<longrightarrow> ok sc = ok sb"
        by blast+
      from sa \<open>update_humidity sa (hum_raw_of data) = Inr sb\<close> Inr
      have "store_sample s1 data = (None, sc)" by (simp add: store_sample_def)
      with ta oa wa tb ob ob' wb tc oc oc' show ?thesis by simp
    qed
  qed
qed

lemma update_accepts_temperature:
  assumes rd: "read_raw_data s b tr fr = Some (Some data, s1, tr1)"
      and ct: "compensate_temperature (s1\<lparr>ok := False\<rparr>) (temp_raw_of data) = Inr (T, s2)"
  shows "\<exists>e s'. update s b tr fr = Some (e, s', tr1)
     \<and> temperature s' = (if - 20 \<le> T \<and> T < 80 then Some T else temperature s)
     \<and> (sample_ok s' \<longrightarrow> - 20 \<le> T \<and> T < 80)
     \<and> (- 20 \<le> T \<and> T < 80 \<and> \<not> with_humidity s \<and> \<not> with_pressure s
          \<longrightarrow> sample_ok s' \<and> e = None)"
proof -
  from read_raw_data_shape [OF rd] obtain ct' ch cp where
    s1: "s1 = s\<lparr>calibration_t := ct', calibration_h := ch, calibration_p := cp\<rparr>" by blast
  have same: "temperature s1 = temperature s" "with_humidity s1 = with_humidity s"
    "with_pressure s1 = with_pressure s"
    by (simp_all add: s1)
  from store_sample_temperature [OF ct] obtain e s' where
    st: "store_sample s1 data = (e, s')"
    and t: "temperature s' = (if - 20 \<le> T \<and> T < 80 then Some T else temperature s1)"
    and o1: "ok s' \<longrightarrow> - 20 \<le> T \<and> T < 80"
    and o2: "- 20 \<le> T \<and> T < 80 \<and> \<not> with_humidity s1 \<and> \<not> with_pressure s1 \<longrightarrow> ok s' \<and> e = None"
    by (elim exE conjE)
  have u: "update s b tr fr = Some (e, s', tr1)"
    unfolding update_def by (simp only: rd st option.case prod.case)
  show ?thesis
    unfolding sample_ok_def using u t o1 o2 unfolding same by blast
qed

lemma update_temperature_range:
  assumes "update_temperature s a = Inr s'"
  shows "(temperature s' = temperature s \<or> (\<exists>T. temperature s' = Some T \<and> - 20 \<le> T \<and> T < 80))
     \<and> humidity s' = humidity s \<and> pressure s' = pressure s"
proof (cases "compensate_temperature s a")
  case (Inl e)
  with assms show ?thesis by (simp add: update_temperature_def)
next
  case (Inr p)
  obtain T s2 where p: "p = (T, s2)" by (cases p)
  from compensate_temperature_shape [of s a T s2] Inr p obtain f where
    s2: "s2 = s\<lparr>temp_fine := f\<rparr>" by auto
  from assms Inr p s2 show ?thesis
    by (auto simp add: update_temperature_def split: if_splits)
qed

lemma compensate_pressure_cong:
  "temp_fine s = temp_fine s' \<Longrightarrow> calibration_p s = calibration_p s'
    \<Longrightarrow> compensate_pressure s a = compensate_pressure s' a"
  by (cases "temp_fine s'") (simp_all add: compensate_pressure_def)

lemma update_pressure_rejects:
  assumes u: "update_pressure sb a = Inr sc" and w: "with_pressure sb"
    and c: "compensate_pressure sc a = Inr p" and r: "p \<le> 100"
  shows "pressure sc = pressure sb \<and> \<not> ok sc"
proof (cases "compensate_pressure sb a")
  case (Inl e)
  with u w show ?thesis by (simp add: update_pressure_def)
next
  case (Inr q)
  show ?thesis
  proof (cases "q > 100")
    case True
    with u w Inr have sc: "sc = sb\<lparr>pressure := Some q\<rparr>"
      by (simp add: update_pressure_def)
    have "compensate_pressure sc a = compensate_pressure sb a"
      by (rule compensate_pressure_cong) (simp_all add: sc)
    with c Inr True r show ?thesis by simp
  next
    case False
    with u w Inr have sc: "sc = sb\<lparr>ok := False\<rparr>"
      by (simp add: update_pressure_def)
    then show ?thesis by simp
  qed
qed

lemma store_sample_range:
  assumes "store_sample s1 data = (e, s')"
  shows "(temperature s' = temperature s1 \<or> (\<exists>T. temperature s' = Some T \<and> - 20 \<le> T \<and> T < 80))
     \<and> (humidity s' = humidity s1 \<or> (\<exists>h. humidity s' = Some h \<and> 0 \<le> h \<and> h \<le> 100))
     \<and> (pressure s' = pressure s1 \<or> (\<exists>p. pressure s' = Some p \<and> 100 < p))"
proof (cases "update_temperature (s1\<lparr>ok := False\<rparr>) (temp_raw_of data)")
  case (Inl x)
  with assms have "s' = s1\<lparr>ok := False\<rparr>" by (simp add: store_sample_def)
  then show ?thesis by simp
next
  case sa: (Inr sa)
  from update_temperature_range [OF sa]
  have ta: "temperature sa = temperature s1 \<or> (\<exists>T. temperature sa = Some T \<and> - 20 \<le> T \<and> T < 80)"
    and ha: "humidity sa = humidity s1" and pa: "pressure sa = pressure s1"
    by simp_all
  show ?thesis
  proof (cases "update_humidity sa (hum_raw_of data)")
    case (Inl x)
    with assms sa have "s' = sa" by (simp add: store_sample_def)
    with ta ha pa show ?thesis by simp
  next
    case sb: (Inr sb)
    from update_humidity_result [OF sb]
    have tb: "temperature sb = temperature sa" and pb: "pressure sb = pressure sa"
      and hb: "humidity sb = humidity sa \<or> (\<exists>h. humidity sb = Some h \<and> 0 \<le> h \<and> h \<le> 100)"
      by blast+
    show ?thesis
    proof (cases "update_pressure sb (pres_raw_of data)")
      case (Inl x)
      with assms sa sb have "s' = sb" by (simp add: store_sample_def)
      with ta ha pa tb pb hb show ?thesis by simp
    next
      case sc: (Inr sc)
      from update_pressure_result [OF sc]
      have tc: "temperature sc = temperature sb" and hc: "humidity sc = humidity sb"
        and pc: "pressure sc = pressure sb \<or> (\<exists>p. pressure sc = Some p \<and> 100 < p)"
        by blast+
      from assms sa sb sc have "s' = sc" by (simp add: store_sample_def)
      with ta ha pa tb pb hb tc hc pc show ?thesis by simp
    qed
  qed
qed

lemma store_sample_pressure_rejected:
  assumes st: "store_sample s1 data = (None, s')" and w: "with_pressure s1"
    and c: "compensate_pressure s' (pres_raw_of data) = Inr p" and r: "p \<le> 100"
  shows "pressure s' = pressure s1 \<and> \<not> ok s'"
proof -
  from st obtain sa sb where
    sa: "update_temperature (s1\<lparr>ok := False\<rparr>) (temp_raw_of data) = Inr sa"
    and sb: "update_humidity sa (hum_raw_of data) = Inr sb"
    and sc: "update_pressure sb (pres_raw_of data) = Inr s'"
    by (auto simp add: store_sample_def Let_def split: sum.splits)
  from update_temperature_range [OF sa] have pa: "pressure sa = pressure s1" by simp
  from sa have wa: "with_pressure sa = with_pressure s1"
    by (auto simp: update_temperature_def split: sum.splits if_splits
        dest!: compensate_temperature_shape)
  from update_humidity_result [OF sb]
  have pb: "pressure sb = pressure sa" and wb: "with_pressure sb = with_pressure sa" by blast+
  from w wa wb have "with_pressure sb" by simp
  from update_pressure_rejects [OF sc this c r] pa pb show ?thesis by simp
qed

text \<open>
  The flag after the three channels: the humidity and the pressure compensation read only
  \<^verbatim>\<open>_temp_fine\<close> and their own table, which the later steps leave alone, so their
  results can be stated on the driver as the temperature compensation left it.
\<close>

lemma compensate_humidity_cong:
  "temp_fine s = temp_fine s' \<Longrightarrow> calibration_h s = calibration_h s'
    \<Longrightarrow> compensate_humidity s a = compensate_humidity s' a"
  by (cases "temp_fine s'"; cases "calibration_h s'")
    (simp_all add: compensate_humidity_def Let_def)

lemma update_humidity_raises:
  assumes "update_humidity s a = Inl e"
  shows "with_humidity s \<and> compensate_humidity s a = Inl e"
  using assms
  by (auto simp: update_humidity_def split: if_splits sum.splits)

lemma update_humidity_flag:
  assumes "update_humidity s a = Inr s'"
  shows "(with_humidity s \<longrightarrow>
            (\<exists>h. compensate_humidity s a = Inr h \<and> ok s' = (ok s \<and> 0 \<le> h \<and> h \<le> 100)))
     \<and> (\<not> with_humidity s \<longrightarrow> ok s' = ok s)
     \<and> temp_fine s' = temp_fine s \<and> calibration_p s' = calibration_p s"
  using assms
  by (auto simp: update_humidity_def split: if_splits sum.splits)

lemma update_pressure_raises:
  assumes "update_pressure s a = Inl e"
  shows "with_pressure s \<and> compensate_pressure s a = Inl e"
  using assms
  by (auto simp: update_pressure_def split: if_splits sum.splits)

lemma update_pressure_flag:
  assumes "update_pressure s a = Inr s'"
  shows "(with_pressure s \<longrightarrow>
            (\<exists>p. compensate_pressure s a = Inr p \<and> ok s' = (ok s \<and> 100 < p)))
     \<and> (\<not> with_pressure s \<longrightarrow> ok s' = ok s)"
  using assms
  by (auto simp: update_pressure_def split: if_splits sum.splits)

lemma store_sample_flag:
  assumes ct: "compensate_temperature (s1\<lparr>ok := False\<rparr>) (temp_raw_of data) = Inr (T, s2)"
  shows "\<exists>e s'. store_sample s1 data = (e, s')
     \<and> (e = None \<longleftrightarrow>
          (with_humidity s1 \<longrightarrow> (\<exists>h. compensate_humidity s2 (hum_raw_of data) = Inr h))
          \<and> (with_pressure s1 \<longrightarrow> (\<exists>p. compensate_pressure s2 (pres_raw_of data) = Inr p)))
     \<and> (e = None \<longrightarrow>
          (ok s' \<longleftrightarrow>
             (- 20 \<le> T \<and> T < 80)
             \<and> (with_humidity s1 \<longrightarrow>
                  (\<exists>h. compensate_humidity s2 (hum_raw_of data) = Inr h \<and> 0 \<le> h \<and> h \<le> 100))
             \<and> (with_pressure s1 \<longrightarrow>
                  (\<exists>p. compensate_pressure s2 (pres_raw_of data) = Inr p \<and> 100 < p))))"
proof -
  from compensate_temperature_shape [OF ct] obtain f where
    s2: "s2 = s1\<lparr>ok := False, temp_fine := f\<rparr>" by auto
  from update_temperature_result [OF ct] obtain sa where
    sa: "update_temperature (s1\<lparr>ok := False\<rparr>) (temp_raw_of data) = Inr sa"
    and oa: "ok sa = (- 20 \<le> T \<and> T < 80)"
    and wa: "with_humidity sa = with_humidity s1" "with_pressure sa = with_pressure s1"
    by blast
  from sa have fa: "temp_fine sa = temp_fine s2" "calibration_h sa = calibration_h s2"
    "calibration_p sa = calibration_p s2"
    by (auto simp add: update_temperature_def ct s2 split: if_splits)
  have ha: "compensate_humidity sa a = compensate_humidity s2 a" for a
    by (rule compensate_humidity_cong) (simp_all add: fa)
  have pa: "compensate_pressure sa a = compensate_pressure s2 a" for a
    by (rule compensate_pressure_cong) (simp_all add: fa)
  show ?thesis
  proof (cases "update_humidity sa (hum_raw_of data)")
    case (Inl e)
    from update_humidity_raises [OF Inl]
    have wh: "with_humidity sa" and ch: "compensate_humidity sa (hum_raw_of data) = Inl e"
      by simp_all
    from sa Inl have "store_sample s1 data = (Some e, sa)"
      by (simp add: store_sample_def)
    with wh ch wa ha show ?thesis by simp
  next
    case sb: (Inr sb)
    from update_humidity_flag [OF sb]
    have hb: "with_humidity sa \<longrightarrow>
        (\<exists>h. compensate_humidity sa (hum_raw_of data) = Inr h \<and> ok sb = (ok sa \<and> 0 \<le> h \<and> h \<le> 100))"
      and nb: "\<not> with_humidity sa \<longrightarrow> ok sb = ok sa"
      and fb: "temp_fine sb = temp_fine sa" "calibration_p sb = calibration_p sa"
      by blast+
    from update_humidity_result [OF sb]
    have wb: "with_pressure sb = with_pressure sa" by blast
    have pb: "compensate_pressure sb a = compensate_pressure s2 a" for a
      unfolding pa [symmetric]
      by (rule compensate_pressure_cong) (simp_all add: fb)
    have okb: "ok sb \<longleftrightarrow> (- 20 \<le> T \<and> T < 80)
        \<and> (with_humidity s1 \<longrightarrow>
             (\<exists>h. compensate_humidity s2 (hum_raw_of data) = Inr h \<and> 0 \<le> h \<and> h \<le> 100))"
      using hb nb unfolding ha oa wa by auto
    have rh: "with_humidity s1 \<longrightarrow> (\<exists>h. compensate_humidity s2 (hum_raw_of data) = Inr h)"
      using hb unfolding ha wa by auto
    show ?thesis
    proof (cases "update_pressure sb (pres_raw_of data)")
      case (Inl e)
      from update_pressure_raises [OF Inl]
      have wp: "with_pressure sb" and cp: "compensate_pressure sb (pres_raw_of data) = Inl e"
        by simp_all
      from sa sb Inl have "store_sample s1 data = (Some e, sb)"
        by (simp add: store_sample_def)
      with wp cp wb wa pb show ?thesis by simp
    next
      case sc: (Inr sc)
      from update_pressure_flag [OF sc]
      have hc: "with_pressure sb \<longrightarrow>
          (\<exists>p. compensate_pressure sb (pres_raw_of data) = Inr p \<and> ok sc = (ok sb \<and> 100 < p))"
        and nc: "\<not> with_pressure sb \<longrightarrow> ok sc = ok sb"
        by blast+
      have okc: "ok sc \<longleftrightarrow> ok sb
          \<and> (with_pressure s1 \<longrightarrow>
               (\<exists>p. compensate_pressure s2 (pres_raw_of data) = Inr p \<and> 100 < p))"
        using hc nc unfolding pb wb wa by auto
      have rp: "with_pressure s1 \<longrightarrow> (\<exists>p. compensate_pressure s2 (pres_raw_of data) = Inr p)"
        using hc unfolding pb wb wa by auto
      from sa sb sc have st: "store_sample s1 data = (None, sc)"
        by (simp add: store_sample_def)
      show ?thesis
        unfolding st using okb okc rh rp by simp
    qed
  qed
qed

lemma update_sample_flag:
  assumes rd: "read_raw_data s b tr fr = Some (Some data, s1, tr1)"
      and ct: "compensate_temperature (s1\<lparr>ok := False\<rparr>) (temp_raw_of data) = Inr (T, s2)"
  shows "\<exists>e s'. update s b tr fr = Some (e, s', tr1)
     \<and> temperature s' = (if - 20 \<le> T \<and> T < 80 then Some T else temperature s)
     \<and> (sample_ok s' \<longrightarrow> - 20 \<le> T \<and> T < 80)
     \<and> (- 20 \<le> T \<and> T < 80 \<and> \<not> with_humidity s \<and> \<not> with_pressure s
          \<longrightarrow> sample_ok s' \<and> e = None)
     \<and> (e = None \<longleftrightarrow>
          (with_humidity s \<longrightarrow> (\<exists>h. compensate_humidity s2 (hum_raw_of data) = Inr h))
          \<and> (with_pressure s \<longrightarrow> (\<exists>p. compensate_pressure s2 (pres_raw_of data) = Inr p)))
     \<and> (e = None \<longrightarrow>
          (sample_ok s' \<longleftrightarrow>
             (- 20 \<le> T \<and> T < 80)
             \<and> (with_humidity s \<longrightarrow>
                  (\<exists>h. compensate_humidity s2 (hum_raw_of data) = Inr h \<and> 0 \<le> h \<and> h \<le> 100))
             \<and> (with_pressure s \<longrightarrow>
                  (\<exists>p. compensate_pressure s2 (pres_raw_of data) = Inr p \<and> 100 < p))))"
proof -
  from read_raw_data_shape [OF rd] obtain ct' ch cp where
    s1: "s1 = s\<lparr>calibration_t := ct', calibration_h := ch, calibration_p := cp\<rparr>" by blast
  have same: "with_humidity s1 = with_humidity s" "with_pressure s1 = with_pressure s"
    by (simp_all add: s1)
  from update_accepts_temperature [OF rd ct] obtain e s' where
    u: "update s b tr fr = Some (e, s', tr1)"
    and t: "temperature s' = (if - 20 \<le> T \<and> T < 80 then Some T else temperature s)"
    and o1: "sample_ok s' \<longrightarrow> - 20 \<le> T \<and> T < 80"
    and o2: "- 20 \<le> T \<and> T < 80 \<and> \<not> with_humidity s \<and> \<not> with_pressure s
          \<longrightarrow> sample_ok s' \<and> e = None"
    by (elim exE conjE)
  from store_sample_flag [OF ct] obtain e' s'' where
    st: "store_sample s1 data = (e', s'')"
    and e': "e' = None \<longleftrightarrow>
          (with_humidity s1 \<longrightarrow> (\<exists>h. compensate_humidity s2 (hum_raw_of data) = Inr h))
          \<and> (with_pressure s1 \<longrightarrow> (\<exists>p. compensate_pressure s2 (pres_raw_of data) = Inr p))"
    and k: "e' = None \<longrightarrow>
          (ok s'' \<longleftrightarrow>
             (- 20 \<le> T \<and> T < 80)
             \<and> (with_humidity s1 \<longrightarrow>
                  (\<exists>h. compensate_humidity s2 (hum_raw_of data) = Inr h \<and> 0 \<le> h \<and> h \<le> 100))
             \<and> (with_pressure s1 \<longrightarrow>
                  (\<exists>p. compensate_pressure s2 (pres_raw_of data) = Inr p \<and> 100 < p)))"
    by (elim exE conjE)
  have "update s b tr fr = Some (e', s'', tr1)"
    unfolding update_def by (simp only: rd st option.case prod.case)
  with u have eq: "e' = e" "s'' = s'" by simp_all
  note e' = e' [unfolded eq same]
  note k = k [unfolded eq same, folded sample_ok_def]
  from u t o1 o2 e' k show ?thesis by blast
qed

text \<open>Outside forced mode there is no polling loop, and \<^verbatim>\<open>update\<close> always comes back.\<close>

lemma update_returns_unless_forced:
  assumes "mode s \<noteq> 2"
  shows "\<exists>e s' tr'. update s b tr fr = Some (e, s', tr')"
proof -
  obtain c sc trc where c: "(if fr \<or> \<not> ok s then configure s b tr else (True, s, tr)) = (c, sc, trc)"
    by (cases "if fr \<or> \<not> ok s then configure s b tr else (True, s, tr)") auto
  have "mode sc = mode s"
  proof (cases "fr \<or> \<not> ok s")
    case True
    with c have "configure s b tr = (c, sc, trc)" by simp
    from configure_shape [OF this] show ?thesis by auto
  next
    case False
    with c show ?thesis by simp
  qed
  with assms have m: "mode sc \<noteq> 2" by simp
  obtain d trd where d: "read_registers b (i2c_add sc) (map int [0xF7..<0xF7 + 8]) trc = (d, trd)"
    by (cases "read_registers b (i2c_add sc) (map int [0xF7..<0xF7 + 8]) trc")
  have "\<exists>r. read_raw_data s b tr fr = Some r"
    unfolding read_raw_data_def c using m d
    by (cases c; cases d) simp_all
  then obtain r s1 tr1 where r: "read_raw_data s b tr fr = Some (r, s1, tr1)"
    by (metis prod_cases3)
  show ?thesis
  proof (cases r)
    case None
    with r show ?thesis by (simp add: update_def)
  next
    case (Some data)
    with r show ?thesis
      by (cases "store_sample s1 data") (simp add: update_def)
  qed
qed

section \<open>The claims about the BME280 driver\<close>

text \<open>
  Claim C1. Every transport error during \<^verbatim>\<open>update\<close> is said to end in
  \<open>sample_ok = False\<close> with no exception reaching the caller, and a failed calibration
  read is said to be noticed before compensation runs. The source does not do this:
  \<^verbatim>\<open>_populate_calibration_data\<close> swallows the \<^verbatim>\<open>OSError\<close> and returns, \<^verbatim>\<open>update\<close> goes on
  to read the data registers and calls \<^verbatim>\<open>_compensate_temperature\<close> with the table still
  \<^verbatim>\<open>None\<close>. On a device whose first calibration register cannot be read while everything
  else answers, the constructor's update leaves with \<^verbatim>\<open>TypeError\<close> and the table unset.
\<close>

theorem calibration_failure_raises_TypeError:
  "map_option (\<lambda>(e, s, tr). (e, calibration_t s))
     (BME280 (register_bus unreadable_calibration) [] 0x76 1 1 1 3 5 0 0 0)
   = Some (Some TypeError, None)"
  by code_simp

text \<open>
  Claim C2. The two's complement conversion of 16-bit values is said to be applied to
  every signed coefficient, dig_T3 and dig_P9 included. The conversion gives the values the
  claim names for 0x8001, 0x7FFF and 0x0000, but the loops of the source run over
  \<^verbatim>\<open>range(1, 2)\<close> and \<^verbatim>\<open>range(1, 8)\<close>, one index short: with the raw value 0x8001 in
  dig_T2, dig_T3, dig_P8 and dig_P9, the driver stores -32767 for dig_T2 and dig_P8 but
  keeps 32769 for dig_T3 and dig_P9.
\<close>

theorem last_signed_coefficients_not_converted:
  "sign_extend 0x8001 = - 32767 \<and> sign_extend 0x7FFF = 32767 \<and> sign_extend 0x0000 = 0
   \<and> map_option
         (\<lambda>(e, s, tr). (calibration_t s, map_option (\<lambda>cp. (cp ! 7, cp ! 8)) (calibration_p s)))
         (BME280 (register_bus negative_T3_P9) [] 0x76 1 1 1 3 5 0 0 0)
       = Some (Some [0, - 32767, 32769], Some (- 32767, 32769))"
  by code_simp

text \<open>
  Claim C3, as stated: the compensated temperature is accepted exactly when
  \<open>-20 \<le> T < 80\<close>, and \<open>T = -20\<close> is invalid. The test of the source is
  \<^verbatim>\<open>temperature >= -20\<close>, so -20 is accepted: a device with dig_T2 = -25600, all other
  coefficients zero and the raw temperature 65536 gives exactly -20, which is stored with
  the sample valid (pressure and humidity are switched off).
\<close>

theorem minus20_accepted_counterexample:
  "map_option (\<lambda>(e, s, tr). (e, temperature s, sample_ok s))
     (BME280 (register_bus minus20_registers) [] 0x76 1 0 0 3 5 0 0 0)
   = Some (None, Some (- 20), True)"
  by code_simp

text \<open>
  Claim C3, amended: whenever an update gets its eight data bytes and the temperature
  compensation yields \<open>T\<close>, the update ends (normally or with an exception of a later
  compensation), and \<open>T\<close> is stored exactly when \<open>-20 \<le> T < 80\<close>, the lower bound
  included; a rejected \<open>T\<close> leaves the stored temperature as it was and the sample
  invalid. The update ends without an exception exactly when the compensation of every
  other enabled channel returns a value, and then the sample is valid exactly when \<open>T\<close>
  is accepted and no other enabled channel is rejected: the humidity, if enabled, lies
  between 0 and 100, and the pressure, if enabled, is above 100.
\<close>

theorem temperature_acceptance:
  assumes "read_raw_data s b tr fr = Some (Some data, s1, tr1)"
      and "compensate_temperature (s1\<lparr>ok := False\<rparr>) (temp_raw_of data) = Inr (T, s2)"
  shows "\<exists>e s'. update s b tr fr = Some (e, s', tr1)
     \<and> temperature s' = (if - 20 \<le> T \<and> T < 80 then Some T else temperature s)
     \<and> (sample_ok s' \<longrightarrow> - 20 \<le> T \<and> T < 80)
     \<and> (- 20 \<le> T \<and> T < 80 \<and> \<not> with_humidity s \<and> \<not> with_pressure s
          \<longrightarrow> sample_ok s' \<and> e = None)
     \<and> (e = None \<longleftrightarrow>
          (with_humidity s \<longrightarrow> (\<exists>h. compensate_humidity s2 (hum_raw_of data) = Inr h))
          \<and> (with_pressure s \<longrightarrow> (\<exists>p. compensate_pressure s2 (pres_raw_of data) = Inr p)))
     \<and> (e = None \<longrightarrow>
          (sample_ok s' \<longleftrightarrow>
             (- 20 \<le> T \<and> T < 80)
             \<and> (with_humidity s \<longrightarrow>
                  (\<exists>h. compensate_humidity s2 (hum_raw_of data) = Inr h \<and> 0 \<le> h \<and> h \<le> 100))
             \<and> (with_pressure s \<longrightarrow>
                  (\<exists>p. compensate_pressure s2 (pres_raw_of data) = Inr p \<and> 100 < p))))"
  using assms by (rule update_sample_flag)

text \<open>
  The upper bound on a device that gives exactly 80: the value is rejected. And a device
  with all three channels enabled and accepted: the sample is valid.
\<close>

theorem temperature_acceptance_witness:
  "(\<exists>e s' tr'. BME280 (register_bus plus80_registers) [] 0x76 1 0 0 3 5 0 0 0 = Some (e, s', tr')
      \<and> temperature s' = None \<and> \<not> sample_ok s')
   \<and> (\<exists>s' tr'. BME280 (register_bus unit_P1_registers) [] 0x76 1 1 1 3 5 0 0 0
                   = Some (None, s', tr')
      \<and> temperature s' = Some 0 \<and> sample_ok s')"
proof (rule conjI)
  define B where "B = register_bus plus80_registers"
  define S0 where "S0 =
    \<lparr>i2c_add = 0x76, ok = False, mode = 3,
     ctrl_meas_reg = push_bit 5 1 OR push_bit 2 0 OR 3,
     config_reg = push_bit 5 5 OR push_bit 2 0 OR 0,
     ctrl_hum_reg = 0, delta_temp = 0,
     with_pressure = ((0::int) > 0), with_humidity = ((0::int) > 0),
     calibration_t = None, calibration_h = None, calibration_p = None,
     temp_fine = None, temperature = None, humidity = None, pressure = None\<rparr>"
  define r where "r = the (read_raw_data S0 B [] True)"
  define D where "D = the (fst r)"
  define S1 where "S1 = fst (snd r)"
  define TR1 where "TR1 = snd (snd r)"
  define S2 where "S2 = snd (projr (compensate_temperature (S1\<lparr>ok := False\<rparr>) (temp_raw_of D)))"
  have rd: "read_raw_data S0 B [] True = Some (Some D, S1, TR1)"
    unfolding D_def S1_def TR1_def r_def S0_def B_def by code_simp
  have ct: "compensate_temperature (S1\<lparr>ok := False\<rparr>) (temp_raw_of D) = Inr (80, S2)"
    unfolding S2_def D_def S1_def TR1_def r_def S0_def B_def by code_simp
  from temperature_acceptance [OF rd ct] obtain e s' where
    u: "update S0 B [] True = Some (e, s', TR1)"
    and t: "temperature s' = (if - 20 \<le> (80::real) \<and> (80::real) < 80 then Some 80 else temperature S0)"
    and o: "sample_ok s' \<longrightarrow> - 20 \<le> (80::real) \<and> (80::real) < 80"
    by (elim exE conjE)
  have "BME280 B [] 0x76 1 0 0 3 5 0 0 0 = update S0 B [] True"
    unfolding BME280_def S0_def by (rule refl)
  with u t o show "\<exists>e s' tr'. BME280 (register_bus plus80_registers) [] 0x76 1 0 0 3 5 0 0 0
      = Some (e, s', tr') \<and> temperature s' = None \<and> \<not> sample_ok s'"
    unfolding B_def [symmetric] by (simp add: S0_def)
next
  define B where "B = register_bus unit_P1_registers"
  define S0 where "S0 =
    \<lparr>i2c_add = 0x76, ok = False, mode = 3,
     ctrl_meas_reg = push_bit 5 1 OR push_bit 2 1 OR 3,
     config_reg = push_bit 5 5 OR push_bit 2 0 OR 0,
     ctrl_hum_reg = 1, delta_temp = 0,
     with_pressure = ((1::int) > 0), with_humidity = ((1::int) > 0),
     calibration_t = None, calibration_h = None, calibration_p = None,
     temp_fine = None, temperature = None, humidity = None, pressure = None\<rparr>"
  define r where "r = the (read_raw_data S0 B [] True)"
  define D where "D = the (fst r)"
  define S1 where "S1 = fst (snd r)"
  define TR1 where "TR1 = snd (snd r)"
  define S2 where "S2 = snd (projr (compensate_temperature (S1\<lparr>ok := False\<rparr>) (temp_raw_of D)))"
  note defs = S2_def D_def S1_def TR1_def r_def S0_def B_def
  have rd: "read_raw_data S0 B [] True = Some (Some D, S1, TR1)"
    unfolding defs by code_simp
  have ct: "compensate_temperature (S1\<lparr>ok := False\<rparr>) (temp_raw_of D) = Inr (0, S2)"
    unfolding defs by code_simp
  have hum: "compensate_humidity S2 (hum_raw_of D) = Inr 0"
    unfolding defs by code_simp
  have pres: "compensate_pressure S2 (pres_raw_of D) = Inr 65536000"
    unfolding defs by code_simp
  from temperature_acceptance [OF rd ct] obtain e s' where
    u: "update S0 B [] True = Some (e, s', TR1)"
    and t: "temperature s' = (if - 20 \<le> (0::real) \<and> (0::real) < 80 then Some 0 else temperature S0)"
    and en: "e = None \<longleftrightarrow>
          (with_humidity S0 \<longrightarrow> (\<exists>h. compensate_humidity S2 (hum_raw_of D) = Inr h))
          \<and> (with_pressure S0 \<longrightarrow> (\<exists>p. compensate_pressure S2 (pres_raw_of D) = Inr p))"
    and k: "e = None \<longrightarrow>
          (sample_ok s' \<longleftrightarrow>
             (- 20 \<le> (0::real) \<and> (0::real) < 80)
             \<and> (with_humidity S0 \<longrightarrow>
                  (\<exists>h. compensate_humidity S2 (hum_raw_of D) = Inr h \<and> 0 \<le> h \<and> h \<le> 100))
             \<and> (with_pressure S0 \<longrightarrow>
                  (\<exists>p. compensate_pressure S2 (pres_raw_of D) = Inr p \<and> 100 < p)))"
    by (elim exE conjE)
  from en have e: "e = None" unfolding hum pres by simp
  from k e have okay: "sample_ok s'" unfolding hum pres by simp
  from t have t0: "temperature s' = Some 0" by simp
  have "BME280 B [] 0x76 1 1 1 3 5 0 0 0 = update S0 B [] True"
    unfolding BME280_def S0_def by (rule refl)
  with u e t0 okay show "\<exists>s' tr'. BME280 (register_bus unit_P1_registers) [] 0x76 1 1 1 3 5 0 0 0
      = Some (None, s', tr') \<and> temperature s' = Some 0 \<and> sample_ok s'"
    unfolding B_def [symmetric] by simp
qed

text \<open>
  Claim C9. Whatever way an update ends, each stored channel value is either the one held
  before the update or a value inside that channel's range, so a value that fails its
  range check is never written. In particular a rejected temperature leaves the stored
  temperature as it was and the sample invalid, and so does a rejected pressure on an
  enabled pressure channel. (The humidity compensation clamps its result to the range,
  so the humidity check of the source never rejects.)
\<close>

theorem rejected_values_not_stored:
  assumes u: "update s b tr fr = Some (e, s', tr')"
  shows "(temperature s' = temperature s \<or> (\<exists>T. temperature s' = Some T \<and> - 20 \<le> T \<and> T < 80))
     \<and> (humidity s' = humidity s \<or> (\<exists>h. humidity s' = Some h \<and> 0 \<le> h \<and> h \<le> 100))
     \<and> (pressure s' = pressure s \<or> (\<exists>p. pressure s' = Some p \<and> 100 < p))
     \<and> (\<forall>data s1 tr1 T s2.
           read_raw_data s b tr fr = Some (Some data, s1, tr1)
           \<and> compensate_temperature (s1\<lparr>ok := False\<rparr>) (temp_raw_of data) = Inr (T, s2)
           \<and> \<not> (- 20 \<le> T \<and> T < 80)
           \<longrightarrow> temperature s' = temperature s \<and> \<not> sample_ok s')
     \<and> (\<forall>data s1 tr1 p.
           read_raw_data s b tr fr = Some (Some data, s1, tr1)
           \<and> e = None \<and> with_pressure s
           \<and> compensate_pressure s' (pres_raw_of data) = Inr p \<and> p \<le> 100
           \<longrightarrow> pressure s' = pressure s \<and> \<not> sample_ok s')"
proof -
  from u obtain r s1 tr1 where rd: "read_raw_data s b tr fr = Some (r, s1, tr1)"
    by (cases "read_raw_data s b tr fr") (auto simp add: update_def)
  from read_raw_data_shape [OF rd] obtain ct ch cp where
    s1: "s1 = s\<lparr>calibration_t := ct, calibration_h := ch, calibration_p := cp\<rparr>" by blast
  have same: "temperature s1 = temperature s" "humidity s1 = humidity s"
    "pressure s1 = pressure s" "with_pressure s1 = with_pressure s"
    by (simp_all add: s1)
  show ?thesis
  proof (cases r)
    case None
    with u rd have "s' = s1\<lparr>ok := False\<rparr>" by (simp add: update_def)
    with same rd None show ?thesis by simp
  next
    case (Some data)
    with u rd have st: "store_sample s1 data = (e, s')"
      by (simp add: update_def split: prod.splits)
    note rng = store_sample_range [OF st, unfolded same]
    have temp: "temperature s' = temperature s \<and> \<not> sample_ok s'"
      if ct: "compensate_temperature (s1\<lparr>ok := False\<rparr>) (temp_raw_of data) = Inr (T, s2)"
        and rej: "\<not> (- 20 \<le> T \<and> T < 80)" for T s2
    proof -
      from rd Some have rd': "read_raw_data s b tr fr = Some (Some data, s1, tr1)" by simp
      from update_accepts_temperature [OF rd' ct] u rej show ?thesis by auto
    qed
    have pres: "pressure s' = pressure s \<and> \<not> sample_ok s'"
      if "e = None" "with_pressure s"
        "compensate_pressure s' (pres_raw_of data) = Inr p" "p \<le> 100" for p
    proof -
      from st that have "store_sample s1 data = (None, s')" by simp
      from store_sample_pressure_rejected [OF this _ that(3,4)] that(2) same
      show ?thesis by (simp add: sample_ok_def)
    qed
    from rng temp pres rd Some show ?thesis by auto
  qed
qed

text \<open>A device with all registers zero: the pressure 0 is rejected and nothing is stored for it.\<close>

theorem rejected_values_not_stored_witness:
  "\<exists>e s' tr'. BME280 (register_bus zero_registers) [] 0x76 1 1 1 3 5 0 0 0 = Some (e, s', tr')
     \<and> temperature s' = Some 0 \<and> pressure s' = None \<and> \<not> sample_ok s'"
proof -
  define B where "B = register_bus zero_registers"
  define S0 where "S0 =
    \<lparr>i2c_add = 0x76, ok = False, mode = 3,
     ctrl_meas_reg = push_bit 5 1 OR push_bit 2 1 OR 3,
     config_reg = push_bit 5 5 OR push_bit 2 0 OR 0,
     ctrl_hum_reg = 1, delta_temp = 0,
     with_pressure = ((1::int) > 0), with_humidity = ((1::int) > 0),
     calibration_t = None, calibration_h = None, calibration_p = None,
     temp_fine = None, temperature = None, humidity = None, pressure = None\<rparr>"
  define r where "r = the (read_raw_data S0 B [] True)"
  define D where "D = the (fst r)"
  define S1 where "S1 = fst (snd r)"
  define TR1 where "TR1 = snd (snd r)"
  define R where "R = the (update S0 B [] True)"
  define E where "E = fst R"
  define S' where "S' = fst (snd R)"
  define TR' where "TR' = snd (snd R)"
  note defs = D_def S1_def TR1_def r_def E_def S'_def TR'_def R_def S0_def B_def
  have u: "update S0 B [] True = Some (E, S', TR')"
    unfolding defs by code_simp
  have rd: "read_raw_data S0 B [] True = Some (Some D, S1, TR1)"
    unfolding defs by code_simp
  have e: "E = None" unfolding defs by code_simp
  have w: "with_pressure S0" unfolding defs by code_simp
  have c: "compensate_pressure S' (pres_raw_of D) = Inr 0"
    unfolding defs by code_simp
  have t: "temperature S' = Some 0" unfolding defs by code_simp
  have p0: "pressure S0 = None" unfolding defs by code_simp
  have le: "(0::real) \<le> 100" by simp
  from rejected_values_not_stored [OF u]
  have "\<forall>data s1 tr1 p.
           read_raw_data S0 B [] True = Some (Some data, s1, tr1)
           \<and> E = None \<and> with_pressure S0
           \<and> compensate_pressure S' (pres_raw_of data) = Inr p \<and> p \<le> 100
           \<longrightarrow> pressure S' = pressure S0 \<and> \<not> sample_ok S'"
    by (elim conjE)
  with rd e w c le have "pressure S' = pressure S0 \<and> \<not> sample_ok S'" by blast
  moreover have "BME280 B [] 0x76 1 1 1 3 5 0 0 0 = update S0 B [] True"
    unfolding BME280_def S0_def by (rule refl)
  ultimately show ?thesis
    using u t p0 unfolding B_def [symmetric] by simp
qed

section \<open>Properties of the BH1750 driver\<close>

lemma set_mode_frame:
  "set_mode s b tr m = (s', tr') \<Longrightarrow>
     bh_config s' = bh_config s \<and> mtreg s' = mtreg s \<and> light_level_raw s' = light_level_raw s
     \<and> bh_mode s' = Some m"
  by (auto simp: set_mode_def write_byte_def Let_def bh_config_def)

lemma set_sensitivity_frame:
  assumes "set_sensitivity s b tr sens = (s', tr')"
  shows "bh_config s' = bh_config s \<and> light_level_raw s' = light_level_raw s
     \<and> mtreg s' = Some (if sens < 31 then 31 else if sens > 254 then 254 else sens)
     \<and> bh_mode s' = Some POWER_DOWN"
  using assms
  by (auto simp: set_sensitivity_def power_on_def power_down_def set_mode_def write_byte_def
      Let_def bh_config_def split: prod.splits)

lemma rearm_frame:
  assumes "rearm s b tr = (e, s', tr')"
  shows "bh_config s' = bh_config s \<and> mtreg s' = mtreg s \<and> light_level_raw s' = light_level_raw s
     \<and> bh_mode s' = Some (operation_mode s)"
  using assms
  by (auto simp: rearm_def reset_def power_on_def set_mode_def write_byte_def
      Let_def bh_config_def split: prod.splits sum.splits)

lemma get_result_frame:
  assumes "get_result s b tr = (r, s', tr')"
  shows "bh_config s' = bh_config s \<and> mtreg s' = mtreg s \<and> light_level_raw s' = light_level_raw s
     \<and> bh_mode s' = bh_mode s"
  using assms
  by (auto simp: get_result_def read_word_data_def Let_def bh_config_def
      split: prod.splits option.splits if_splits)

lemma bh_update_frame:
  assumes "bh_update s b tr = (e, s', tr')"
  shows "bh_config s' = bh_config s \<and> mtreg s' = mtreg s
     \<and> (bh_mode s \<noteq> None \<longrightarrow> bh_mode s' \<noteq> None)"
proof -
  obtain e1 s1 tr1 where p: "(if needs_rearm s then rearm s b tr else (None, s, tr)) = (e1, s1, tr1)"
    by (cases "if needs_rearm s then rearm s b tr else (None, s, tr)") auto
  have s1: "bh_config s1 = bh_config s \<and> mtreg s1 = mtreg s
      \<and> (bh_mode s \<noteq> None \<longrightarrow> bh_mode s1 \<noteq> None)"
  proof (cases "needs_rearm s")
    case True
    with p have "rearm s b tr = (e1, s1, tr1)" by simp
    from rearm_frame [OF this] show ?thesis by simp
  next
    case False
    with p show ?thesis by simp
  qed
  show ?thesis
  proof (cases e1)
    case (Some x)
    with assms p have "s' = s1" by (simp add: bh_update_def)
    with s1 show ?thesis by simp
  next
    case None
    obtain r s2 tr2 where g: "get_result s1 b tr1 = (r, s2, tr2)"
      by (cases "get_result s1 b tr1") auto
    from get_result_frame [OF g] s1
    have s2: "bh_config s2 = bh_config s \<and> mtreg s2 = mtreg s
      \<and> (bh_mode s \<noteq> None \<longrightarrow> bh_mode s2 \<noteq> None)" by simp
    show ?thesis
    proof (cases r)
      case (Inl x)
      with assms p None g have "s' = s2" by (simp add: bh_update_def)
      with s2 show ?thesis by simp
    next
      case (Inr v)
      have c: "bh_config (s2\<lparr>light_level_raw := v\<rparr>) = bh_config s2"
        by (simp add: bh_config_def)
      show ?thesis
      proof (cases "continuous_sampling s2")
        case True
        with assms p None g Inr have "s' = s2\<lparr>light_level_raw := v\<rparr>"
          by (simp add: bh_update_def)
        with s2 c show ?thesis by simp
      next
        case False
        with assms p None g Inr
        have "set_mode (s2\<lparr>light_level_raw := v\<rparr>) b tr2 POWER_DOWN = (s', tr')"
          by (simp add: bh_update_def power_down_def split: prod.splits)
        from set_mode_frame [OF this] s2 c show ?thesis by simp
      qed
    qed
  qed
qed

lemma BH1750_frame:
  assumes "BH1750 b tr a om d sens = (Inr s, tr')"
  shows "\<exists>code cont. OPERATION_MODES om = Some (code, cont)
     \<and> bh_config s = (a, d / 1000, code, cont, code AND 0x03 = 0x01, code AND 0x03 = 0x03)
     \<and> mtreg s = Some (if sens < 31 then 31 else if sens > 254 then 254 else sens)
     \<and> bh_mode s \<noteq> None"
proof -
  from assms obtain code cont where om: "OPERATION_MODES om = Some (code, cont)"
    by (cases "OPERATION_MODES om") (auto simp: BH1750_def)
  define s0 where "s0 = \<lparr>i2c_add = a, ok = False, bh_mode = None, delay = d / 1000,
            operation_mode = code, continuous_sampling = cont,
            high_res = (code AND 0x03 = 0x01), low_res = (code AND 0x03 = 0x03),
            mtreg = None, light_level_raw = - 1\<rparr>"
  obtain s1 tr1 where p1: "power_down s0 b tr = (s1, tr1)" by (cases "power_down s0 b tr")
  obtain s2 tr2 where p2: "set_sensitivity s1 b tr1 sens = (s2, tr2)"
    by (cases "set_sensitivity s1 b tr1 sens")
  obtain e s3 tr3 where p3: "bh_update s2 b tr2 = (e, s3, tr3)"
    by (cases "bh_update s2 b tr2")
  from assms om p1 p2 p3 have s3: "s = s3"
    by (simp add: BH1750_def s0_def [symmetric] split: option.splits)
  have c0: "bh_config s0 = (a, d / 1000, code, cont, code AND 0x03 = 0x01, code AND 0x03 = 0x03)"
    by (simp add: bh_config_def s0_def)
  from p1 have c1: "bh_config s1 = bh_config s0"
    by (simp add: power_down_def set_mode_frame)
  from set_sensitivity_frame [OF p2] bh_update_frame [OF p3] c0 c1 om s3
  show ?thesis by simp
qed

lemma bh_instance_invariant:
  assumes "bh_instance b om (s, tr)"
  shows "\<exists>code cont mt. OPERATION_MODES om = Some (code, cont)
     \<and> operation_mode s = code \<and> continuous_sampling s = cont
     \<and> high_res s = (code AND 0x03 = 0x01) \<and> low_res s = (code AND 0x03 = 0x03)
     \<and> mtreg s = Some mt \<and> 31 \<le> mt \<and> mt \<le> 254 \<and> bh_mode s \<noteq> None"
proof -
  have "\<exists>code cont mt. OPERATION_MODES om = Some (code, cont)
     \<and> operation_mode (fst p) = code \<and> continuous_sampling (fst p) = cont
     \<and> high_res (fst p) = (code AND 0x03 = 0x01) \<and> low_res (fst p) = (code AND 0x03 = 0x03)
     \<and> mtreg (fst p) = Some mt \<and> 31 \<le> mt \<and> mt \<le> 254 \<and> bh_mode (fst p) \<noteq> None"
    if "bh_instance b om p" for p
    using that
  proof (induction rule: bh_instance.induct)
    case (created tr a d sens s tr')
    from BH1750_frame [OF created] show ?case by (auto simp: bh_config_def)
  next
    case (updated s tr e s' tr')
    from bh_update_frame [OF updated.hyps(2)] updated.IH show ?case
      by (auto simp add: bh_config_def)
  next
    case (sensitivity_set s tr sens s' tr')
    from set_sensitivity_frame [OF sensitivity_set.hyps(2)] sensitivity_set.IH
    show ?case by (auto simp: bh_config_def)
  qed
  from this [OF assms] show ?thesis by simp
qed

lemma high_res_modes:
  assumes "OPERATION_MODES om = Some (code, cont)"
  shows "(code AND 0x03 = 0x01) \<longleftrightarrow>
     (om = CONTINUOUS_HIGH_RES_MODE_2 \<or> om = ONE_TIME_HIGH_RES_MODE_2)"
  using assms
  by (auto simp: OPERATION_MODES_def CONTINUOUS_LOW_RES_MODE_def CONTINUOUS_HIGH_RES_MODE_1_def
      CONTINUOUS_HIGH_RES_MODE_2_def ONE_TIME_LOW_RES_MODE_def ONE_TIME_HIGH_RES_MODE_1_def
      ONE_TIME_HIGH_RES_MODE_2_def split: if_splits)

lemma and_255: "(x::int) AND 255 = x mod 256"
proof -
  have "x AND 255 = x AND mask 8" by (simp add: mask_eq_exp_minus_1)
  also have "\<dots> = take_bit 8 x" by (simp add: take_bit_eq_mask)
  also have "\<dots> = x mod 256" by (simp add: take_bit_eq_mod)
  finally show ?thesis .
qed

lemma byte_swap:
  assumes "0 \<le> hi" "hi < 256" "0 \<le> lo" "lo < 256"
  shows "drop_bit 8 (256 * hi + lo) OR push_bit 8 ((256 * hi + lo) AND 0xff) = 256 * lo + (hi::int)"
proof -
  have d: "drop_bit 8 (256 * hi + lo) = hi"
    using assms by (simp add: drop_bit_eq_div)
  have a: "(256 * hi + lo) AND 0xff = lo"
    using assms by (simp add: and_255)
  have t: "take_bit 8 hi = hi"
    using assms by (simp add: take_bit_int_eq_self)
  have "hi OR push_bit 8 lo = concat_bit 8 hi lo"
    by (simp add: concat_bit_def t)
  also have "\<dots> = hi + push_bit 8 lo"
    by (simp add: concat_bit_eq t)
  also have "\<dots> = 256 * lo + hi"
    by (simp add: push_bit_eq_mult)
  finally show ?thesis by (simp add: d a)
qed

lemmas bh_defs = bh_update_def rearm_def reset_def power_on_def power_down_def set_mode_def
  write_byte_def wait_for_result_def sleep_def get_result_def read_word_data_def

lemma bh_update_rearm_prefix:
  assumes "bh_update s b tr = (e, s', tr')" and "needs_rearm s"
  shows "\<exists>r1 r2 r3 rest. tr' = tr @ [Write_byte (i2c_add s) POWER_ON r1,
           Write_byte (i2c_add s) RESET r2, Write_byte (i2c_add s) (operation_mode s) r3] @ rest"
  using assms
  by (auto simp: bh_defs Let_def split: prod.splits sum.splits option.splits if_splits)

lemma bh_update_skip_prefix:
  assumes "bh_update s b tr = (e, s', tr')" and "\<not> needs_rearm s"
  shows "\<exists>rd rest. tr' = tr @ Read_word_data (i2c_add s) (operation_mode s) rd # rest"
  using assms
  by (auto simp: bh_defs needs_rearm_def Let_def
      split: prod.splits sum.splits option.splits if_splits)

lemma bh_update_failed_read:
  assumes "bh_update s b tr = (e, s', tr')"
    and "Read_word_data a m None \<in> set (drop (length tr) tr')"
  shows "light_level_raw s' = - 1"
  using assms
  by (auto simp: bh_defs Let_def split: prod.splits sum.splits option.splits if_splits)

lemma bh_update_events:
  assumes u: "bh_update s b tr = (e, s', tr')"
    and mt: "mtreg s = Some mt" "31 \<le> mt" "mt \<le> 254" and d: "0 \<le> delay s"
  shows "e = None \<and> (\<exists>r1 r2 r3 rd r4. tr' = tr
       @ (if needs_rearm s
          then [Write_byte (i2c_add s) POWER_ON r1, Write_byte (i2c_add s) RESET r2,
                Write_byte (i2c_add s) (operation_mode s) r3,
                Sleep ((if low_res s then 0.018 else 0.128) * (real_of_int mt / 69) + delay s)]
          else [])
       @ [Read_word_data (i2c_add s) (operation_mode s) rd]
       @ (if continuous_sampling s then [] else [Write_byte (i2c_add s) POWER_DOWN r4]))"
proof -
  have t: "0 \<le> (if low_res s then 0.018 else 0.128) * (real_of_int mt / 69) + delay s"
    using mt d by simp
  have nz: "1.2 * (real_of_int mt / 69) * (if high_res s then 2 else 1) \<noteq> 0"
    using mt by simp
  show ?thesis
  proof (cases "needs_rearm s")
    case True
    with u mt t nz show ?thesis
      by (auto simp: bh_defs Let_def split: prod.splits sum.splits option.splits if_splits)
  next
    case False
    with u mt t nz show ?thesis
      by (auto simp: bh_defs needs_rearm_def Let_def
          split: prod.splits sum.splits option.splits if_splits)
  qed
qed

section \<open>The claims about the BH1750 driver\<close>

text \<open>
  Claim C4, as stated: the resolution multiplier is 2 in each high-resolution mode, modes
  1 and 2. The source takes 2 only when the low two bits of the mode code are 01, which
  is mode 2 (codes 0x11 and 0x21); mode 1 (codes 0x10 and 0x20) has the low bits 00. In
  continuous high-resolution mode 1 with sensitivity 69, the bus word 0x7800 is swapped
  to the count 120 and stored as 120 / 1.2 = 100, not as 120 / (1.2 * 2) = 50.
\<close>

theorem high_res_mode_1_counterexample:
  "case BH1750 (register_bus (fixed_word 0x7800)) [] 0x23 CONTINUOUS_HIGH_RES_MODE_1 120 69 of
     (Inr s, tr) \<Rightarrow> light_level_raw s = 100 \<and> light_level_raw s \<noteq> 120 / (1.2 * (69 / 69) * 2)
   | (Inl e, tr) \<Rightarrow> False"
  by code_simp

text \<open>
  Claim C4, amended: for every driver instance and every successful read, the 16-bit bus
  word with high byte \<open>hi\<close> and low byte \<open>lo\<close> is byte-swapped to the count
  \<open>256 * lo + hi\<close>, and the result is the count divided by
  \<open>1.2 * (sensitivity / 69) * multiplier\<close>, where the multiplier is 2 in the two
  submodes of high-resolution mode 2 (continuous and one-time) and 1 otherwise.
\<close>

theorem lux_conversion:
  assumes inst: "bh_instance b om (s, tr)"
    and m: "bh_mode s = Some m" and mt: "mtreg s = Some mt"
    and rd: "bus_read_word_data b tr (i2c_add s) m = Some (256 * hi + lo)"
    and bytes: "0 \<le> hi" "hi < 256" "0 \<le> lo" "lo < 256"
  shows "fst (get_result s b tr) =
     Inr (real_of_int (256 * lo + hi)
          / (1.2 * (real_of_int mt / 69)
             * (if om = CONTINUOUS_HIGH_RES_MODE_2 \<or> om = ONE_TIME_HIGH_RES_MODE_2
                then 2 else 1)))"
proof -
  from bh_instance_invariant [OF inst] obtain code cont mt' where
    om: "OPERATION_MODES om = Some (code, cont)"
    and hr: "high_res s = (code AND 0x03 = 0x01)"
    and mt': "mtreg s = Some mt'" "31 \<le> mt'" "mt' \<le> 254"
    by blast
  from mt mt' have pos: "31 \<le> mt" by simp
  have hr': "high_res s = (om = CONTINUOUS_HIGH_RES_MODE_2 \<or> om = ONE_TIME_HIGH_RES_MODE_2)"
    unfolding hr by (rule high_res_modes [OF om])
  have nz: "real_of_int mt \<noteq> 0" using pos by simp
  note sw = byte_swap [OF bytes]
  have "fst (get_result s b tr) =
     Inr ((1 / (1.2 * (real_of_int mt / 69) * (if high_res s then 2 else 1)))
          * real_of_int (drop_bit 8 (256 * hi + lo) OR push_bit 8 ((256 * hi + lo) AND 0xff)))"
    using nz by (simp add: get_result_def read_word_data_def m mt rd Let_def)
  also have "\<dots> =
     Inr ((1 / (1.2 * (real_of_int mt / 69) * (if high_res s then 2 else 1)))
          * real_of_int (256 * lo + hi))"
    by (simp only: sw)
  finally show ?thesis
    by (simp add: hr')
qed

text \<open>Continuous high-resolution mode 2: the word 0x7800 gives 120 / (1.2 * 2) = 50.\<close>

theorem lux_conversion_witness:
  "\<exists>s tr. BH1750 (register_bus (fixed_word 0x7800)) [] 0x23 CONTINUOUS_HIGH_RES_MODE_2 120 69
       = (Inr s, tr) \<and> fst (get_result s (register_bus (fixed_word 0x7800)) tr) = Inr 50"
proof -
  define B where "B = register_bus (fixed_word 0x7800)"
  define R where "R = BH1750 B [] 0x23 CONTINUOUS_HIGH_RES_MODE_2 120 69"
  define S where "S = projr (fst R)"
  define TR where "TR = snd R"
  note defs = S_def TR_def R_def B_def
  have c: "BH1750 B [] 0x23 CONTINUOUS_HIGH_RES_MODE_2 120 69 = (Inr S, TR)"
    unfolding defs by code_simp
  have inst: "bh_instance B CONTINUOUS_HIGH_RES_MODE_2 (S, TR)"
    by (rule bh_instance.created [OF c])
  have m: "bh_mode S = Some 0x11" unfolding defs by code_simp
  have mt: "mtreg S = Some 69" unfolding defs by code_simp
  have rd: "bus_read_word_data B TR (i2c_add S) 0x11 = Some (256 * 0x78 + 0)"
    by (simp add: B_def register_bus_def fixed_word_def)
  from lux_conversion [OF inst m mt rd]
  have "fst (get_result S B TR) = Inr 50" by simp
  with c show ?thesis unfolding B_def by blast
qed

text \<open>
  Claim C5, as stated: \<^verbatim>\<open>light_level\<close> rounds to one decimal in any high-resolution mode.
  In continuous high-resolution mode 1 the stored value 5/6 is returned as 1, rounded to
  no decimals, while rounding to one decimal gives 0.8.
\<close>

theorem rounding_mode_1_counterexample:
  "case BH1750 (register_bus (fixed_word 0x0100)) [] 0x23 CONTINUOUS_HIGH_RES_MODE_1 120 69 of
     (Inr s, tr) \<Rightarrow> light_level_raw s = 5 / 6 \<and> light_level s = 1
        \<and> py_round (light_level_raw s) 1 = 0.8
   | (Inl e, tr) \<Rightarrow> False"
  by code_simp

text \<open>
  Claim C5, amended: for every driver instance, \<^verbatim>\<open>light_level\<close> is the stored value
  rounded to one decimal in the two submodes of high-resolution mode 2, and to no
  decimals otherwise (high-resolution mode 1 and low resolution).
\<close>

theorem light_level_rounding:
  assumes "bh_instance b om (s, tr)"
  shows "light_level s = py_round (light_level_raw s)
     (if om = CONTINUOUS_HIGH_RES_MODE_2 \<or> om = ONE_TIME_HIGH_RES_MODE_2 then 1 else 0)"
proof -
  from bh_instance_invariant [OF assms] obtain code cont where
    om: "OPERATION_MODES om = Some (code, cont)"
    and hr: "high_res s = (code AND 0x03 = 0x01)"
    by blast
  have "high_res s = (om = CONTINUOUS_HIGH_RES_MODE_2 \<or> om = ONE_TIME_HIGH_RES_MODE_2)"
    unfolding hr by (rule high_res_modes [OF om])
  then show ?thesis by (simp add: light_level_def)
qed

text \<open>Continuous high-resolution mode 2: the stored value 5/12 is returned as 0.4.\<close>

theorem light_level_rounding_witness:
  "\<exists>s tr. BH1750 (register_bus (fixed_word 0x0100)) [] 0x23 CONTINUOUS_HIGH_RES_MODE_2 120 69
       = (Inr s, tr) \<and> light_level_raw s = 5 / 12 \<and> light_level s = 0.4"
proof -
  define B where "B = register_bus (fixed_word 0x0100)"
  define R where "R = BH1750 B [] 0x23 CONTINUOUS_HIGH_RES_MODE_2 120 69"
  define S where "S = projr (fst R)"
  define TR where "TR = snd R"
  note defs = S_def TR_def R_def B_def
  have c: "BH1750 B [] 0x23 CONTINUOUS_HIGH_RES_MODE_2 120 69 = (Inr S, TR)"
    unfolding defs by code_simp
  have inst: "bh_instance B CONTINUOUS_HIGH_RES_MODE_2 (S, TR)"
    by (rule bh_instance.created [OF c])
  have raw: "light_level_raw S = 5 / 12" unfolding defs by code_simp
  have r: "py_round (5 / 12) 1 = 0.4" by code_simp
  from light_level_rounding [OF inst] raw r have "light_level S = 0.4" by simp
  with c raw show ?thesis unfolding B_def by blast
qed

text \<open>
  Claim C6, as stated: the reset path is taken when the driver is in a one-shot mode, has
  never taken a valid sample, or the armed mode differs from the target; otherwise the
  update skips straight to reading. The source tests \<^verbatim>\<open>self._light_level < 0\<close>, and a
  failed read stores -1. On a device whose second read fails, a continuous driver takes a
  valid sample in its constructor, its next update fails, and the update after that runs
  the whole reset path although the driver is continuous, has taken a valid sample and
  has its target mode armed.
\<close>

theorem rearm_after_valid_sample_counterexample:
  "case BH1750 second_read_fails [] 0x23 CONTINUOUS_HIGH_RES_MODE_1 120 69 of
     (Inr s1, tr1) \<Rightarrow>
       sample_ok s1 \<and> light_level_raw s1 = 100
       \<and> (case bh_update s1 second_read_fails tr1 of
            (e2, s2, tr2) \<Rightarrow>
              continuous_sampling s2 \<and> bh_mode s2 = Some (operation_mode s2)
              \<and> (case bh_update s2 second_read_fails tr2 of
                   (e3, s3, tr3) \<Rightarrow>
                     drop (length tr2) tr3 =
                       [Write_byte 0x23 POWER_ON True, Write_byte 0x23 RESET True,
                        Write_byte 0x23 0x10 True, Sleep 0.248,
                        Read_word_data 0x23 0x10 (Some 0x7800)]))
   | (Inl e, tr1) \<Rightarrow> False"
  by code_simp

text \<open>
  Claim C6, amended: with the sensitivity set and a non-negative delay, an update ends
  normally, and the calls it makes are: when the driver is in a one-shot mode, or the
  stored light level is negative (no reading yet, or the last read failed), or the armed
  mode differs from the target mode, the writes power-on, reset and target mode followed
  by a sleep of (18 ms if low resolution, else 128 ms) * (sensitivity / 69) + delay; then,
  in every case, one word read from the target mode; then a power-down in one-shot modes.
\<close>

theorem update_state_machine:
  assumes "bh_update s b tr = (e, s', tr')"
    and "mtreg s = Some mt" and "31 \<le> mt" and "mt \<le> 254" and "0 \<le> delay s"
  shows "e = None \<and> (\<exists>r1 r2 r3 rd r4. tr' = tr
       @ (if \<not> continuous_sampling s \<or> light_level_raw s < 0
             \<or> Some (operation_mode s) \<noteq> bh_mode s
          then [Write_byte (i2c_add s) POWER_ON r1, Write_byte (i2c_add s) RESET r2,
                Write_byte (i2c_add s) (operation_mode s) r3,
                Sleep ((if low_res s then 0.018 else 0.128) * (real_of_int mt / 69) + delay s)]
          else [])
       @ [Read_word_data (i2c_add s) (operation_mode s) rd]
       @ (if continuous_sampling s then [] else [Write_byte (i2c_add s) POWER_DOWN r4]))"
  using bh_update_events [OF assms] unfolding needs_rearm_def .

text \<open>
  Continuous high-resolution mode 1, sensitivity 69, a device that always answers: the
  constructor's update runs the reset path and waits 0.128 + 0.12 seconds, the second
  update only reads.
\<close>

theorem update_state_machine_witness:
  "\<exists>s1 tr1 e2 s2 tr2.
     BH1750 (register_bus (fixed_word 0x7800)) [] 0x23 CONTINUOUS_HIGH_RES_MODE_1 120 69
       = (Inr s1, tr1)
     \<and> drop 5 tr1 = [Write_byte 0x23 POWER_ON True, Write_byte 0x23 RESET True,
                      Write_byte 0x23 0x10 True, Sleep 0.248,
                      Read_word_data 0x23 0x10 (Some 0x7800)]
     \<and> bh_update s1 (register_bus (fixed_word 0x7800)) tr1 = (e2, s2, tr2)
     \<and> e2 = None \<and> (\<exists>rd. tr2 = tr1 @ [Read_word_data 0x23 0x10 rd])"
proof -
  define B where "B = register_bus (fixed_word 0x7800)"
  define R where "R = BH1750 B [] 0x23 CONTINUOUS_HIGH_RES_MODE_1 120 69"
  define S1 where "S1 = projr (fst R)"
  define TR1 where "TR1 = snd R"
  define U where "U = bh_update S1 B TR1"
  define E2 where "E2 = fst U"
  define S2 where "S2 = fst (snd U)"
  define TR2 where "TR2 = snd (snd U)"
  note defs = E2_def S2_def TR2_def U_def S1_def TR1_def R_def B_def
  have c: "BH1750 B [] 0x23 CONTINUOUS_HIGH_RES_MODE_1 120 69 = (Inr S1, TR1)"
    unfolding defs by code_simp
  have first: "drop 5 TR1 = [Write_byte 0x23 POWER_ON True, Write_byte 0x23 RESET True,
                      Write_byte 0x23 0x10 True, Sleep 0.248,
                      Read_word_data 0x23 0x10 (Some 0x7800)]"
    unfolding defs by code_simp
  have u: "bh_update S1 B TR1 = (E2, S2, TR2)"
    unfolding E2_def S2_def TR2_def U_def by simp
  have mt: "mtreg S1 = Some 69" unfolding defs by code_simp
  have d: "0 \<le> delay S1" unfolding defs by code_simp
  have st: "continuous_sampling S1" "\<not> light_level_raw S1 < 0"
    "Some (operation_mode S1) = bh_mode S1" "i2c_add S1 = 0x23" "operation_mode S1 = 0x10"
    unfolding defs by code_simp+
  from update_state_machine [OF u mt _ _ d] st
  have "E2 = None \<and> (\<exists>rd. TR2 = TR1 @ [Read_word_data 0x23 0x10 rd])"
    by simp
  with c first u show ?thesis unfolding B_def by blast
qed

text \<open>
  Claim C10. For two updates in a row: if the read of the first fails, the stored level is
  -1 and the second begins with power-on, reset and target mode (and, with the sensitivity
  set and a non-negative delay, waits before its read); and if the second begins with its
  read, then the driver is continuous, the stored level is not negative, the armed mode is
  the target mode, and no read of the first update failed.
\<close>

theorem failed_read_forces_rearm:
  assumes u1: "bh_update s b tr = (e1, s1, tr1)" and u2: "bh_update s1 b tr1 = (e2, s2, tr2)"
  shows "((\<exists>a m. Read_word_data a m None \<in> set (drop (length tr) tr1)) \<longrightarrow>
            light_level_raw s1 = - 1
            \<and> (\<exists>r1 r2 r3 rest. tr2 = tr1 @ [Write_byte (i2c_add s1) POWER_ON r1,
                  Write_byte (i2c_add s1) RESET r2,
                  Write_byte (i2c_add s1) (operation_mode s1) r3] @ rest)
            \<and> (\<forall>mt. mtreg s1 = Some mt \<and> 31 \<le> mt \<and> mt \<le> 254 \<and> 0 \<le> delay s1 \<longrightarrow>
                 (\<exists>r1 r2 r3 rd rest. tr2 = tr1 @ [Write_byte (i2c_add s1) POWER_ON r1,
                  Write_byte (i2c_add s1) RESET r2,
                  Write_byte (i2c_add s1) (operation_mode s1) r3,
                  Sleep ((if low_res s1 then 0.018 else 0.128) * (real_of_int mt / 69) + delay s1),
                  Read_word_data (i2c_add s1) (operation_mode s1) rd] @ rest)))
     \<and> ((\<exists>a m rd rest. tr2 = tr1 @ Read_word_data a m rd # rest) \<longrightarrow>
            continuous_sampling s1 \<and> 0 \<le> light_level_raw s1
            \<and> bh_mode s1 = Some (operation_mode s1)
            \<and> \<not> (\<exists>a m. Read_word_data a m None \<in> set (drop (length tr) tr1)))"
proof (intro conjI impI)
  assume f: "\<exists>a m. Read_word_data a m None \<in> set (drop (length tr) tr1)"
  then obtain a m where "Read_word_data a m None \<in> set (drop (length tr) tr1)" by blast
  from bh_update_failed_read [OF u1 this] show l: "light_level_raw s1 = - 1" .
  then have n: "needs_rearm s1" by (simp add: needs_rearm_def)
  from bh_update_rearm_prefix [OF u2 n]
  show "\<exists>r1 r2 r3 rest. tr2 = tr1 @ [Write_byte (i2c_add s1) POWER_ON r1,
                  Write_byte (i2c_add s1) RESET r2,
                  Write_byte (i2c_add s1) (operation_mode s1) r3] @ rest" .
  show "\<forall>mt. mtreg s1 = Some mt \<and> 31 \<le> mt \<and> mt \<le> 254 \<and> 0 \<le> delay s1 \<longrightarrow>
                 (\<exists>r1 r2 r3 rd rest. tr2 = tr1 @ [Write_byte (i2c_add s1) POWER_ON r1,
                  Write_byte (i2c_add s1) RESET r2,
                  Write_byte (i2c_add s1) (operation_mode s1) r3,
                  Sleep ((if low_res s1 then 0.018 else 0.128) * (real_of_int mt / 69) + delay s1),
                  Read_word_data (i2c_add s1) (operation_mode s1) rd] @ rest)"
  proof (intro allI impI)
    fix mt assume "mtreg s1 = Some mt \<and> 31 \<le> mt \<and> mt \<le> 254 \<and> 0 \<le> delay s1"
    then have w: "mtreg s1 = Some mt" "31 \<le> mt" "mt \<le> 254" "0 \<le> delay s1" by simp_all
    from bh_update_events [OF u2 w] n
    show "\<exists>r1 r2 r3 rd rest. tr2 = tr1 @ [Write_byte (i2c_add s1) POWER_ON r1,
                  Write_byte (i2c_add s1) RESET r2,
                  Write_byte (i2c_add s1) (operation_mode s1) r3,
                  Sleep ((if low_res s1 then 0.018 else 0.128) * (real_of_int mt / 69) + delay s1),
                  Read_word_data (i2c_add s1) (operation_mode s1) rd] @ rest"
      by auto
  qed
next
  assume sk: "\<exists>a m rd rest. tr2 = tr1 @ Read_word_data a m rd # rest"
  have n: "\<not> needs_rearm s1"
  proof
    assume "needs_rearm s1"
    from bh_update_rearm_prefix [OF u2 this] sk show False by auto
  qed
  then show "continuous_sampling s1" "0 \<le> light_level_raw s1"
    "bh_mode s1 = Some (operation_mode s1)"
    by (auto simp: needs_rearm_def)
  show "\<not> (\<exists>a m. Read_word_data a m None \<in> set (drop (length tr) tr1))"
  proof
    assume "\<exists>a m. Read_word_data a m None \<in> set (drop (length tr) tr1)"
    then obtain a m where "Read_word_data a m None \<in> set (drop (length tr) tr1)" by blast
    from bh_update_failed_read [OF u1 this] n show False by (simp add: needs_rearm_def)
  qed
qed

text \<open>Continuous low resolution on the device whose second read fails.\<close>

theorem failed_read_forces_rearm_witness:
  "\<exists>s tr e1 s1 tr1 e2 s2 tr2.
     BH1750 second_read_fails [] 0x23 CONTINUOUS_LOW_RES_MODE 120 69 = (Inr s, tr)
     \<and> bh_update s second_read_fails tr = (e1, s1, tr1)
     \<and> drop (length tr) tr1 = [Read_word_data 0x23 0x13 None]
     \<and> continuous_sampling s1 \<and> bh_mode s1 = Some (operation_mode s1)
     \<and> bh_update s1 second_read_fails tr1 = (e2, s2, tr2)
     \<and> light_level_raw s1 = - 1
     \<and> (\<exists>r1 r2 r3 rest. tr2 = tr1 @ [Write_byte 0x23 POWER_ON r1,
           Write_byte 0x23 RESET r2, Write_byte 0x23 0x13 r3] @ rest)"
proof -
  define B where "B = second_read_fails"
  define R where "R = BH1750 B [] 0x23 CONTINUOUS_LOW_RES_MODE 120 69"
  define S where "S = projr (fst R)"
  define TR where "TR = snd R"
  define U1 where "U1 = bh_update S B TR"
  define E1 where "E1 = fst U1"
  define S1 where "S1 = fst (snd U1)"
  define TR1 where "TR1 = snd (snd U1)"
  define U2 where "U2 = bh_update S1 B TR1"
  define E2 where "E2 = fst U2"
  define S2 where "S2 = fst (snd U2)"
  define TR2 where "TR2 = snd (snd U2)"
  note defs = E1_def S1_def TR1_def U1_def S_def TR_def R_def B_def
  have c: "BH1750 B [] 0x23 CONTINUOUS_LOW_RES_MODE 120 69 = (Inr S, TR)"
    unfolding defs by code_simp
  have u1: "bh_update S B TR = (E1, S1, TR1)"
    unfolding E1_def S1_def TR1_def U1_def by simp
  have u2: "bh_update S1 B TR1 = (E2, S2, TR2)"
    unfolding E2_def S2_def TR2_def U2_def by simp
  have ev: "drop (length TR) TR1 = [Read_word_data 0x23 0x13 None]"
    unfolding defs by code_simp
  have st: "continuous_sampling S1" "bh_mode S1 = Some (operation_mode S1)"
    "i2c_add S1 = 0x23" "operation_mode S1 = 0x13"
    unfolding defs by code_simp+
  from ev have f: "\<exists>a m. Read_word_data a m None \<in> set (drop (length TR) TR1)"
    by auto
  from failed_read_forces_rearm [OF u1 u2] f st(3,4)
  have "light_level_raw S1 = - 1
     \<and> (\<exists>r1 r2 r3 rest. TR2 = TR1 @ [Write_byte 0x23 POWER_ON r1,
           Write_byte 0x23 RESET r2, Write_byte 0x23 0x13 r3] @ rest)"
    by simp
  with c u1 u2 ev st show ?thesis unfolding B_def by blast
qed

section \<open>Properties of the HTU21D driver\<close>

lemma shifted_poly_remainders:
  "crc8_remainder 305 = 0" "crc8_remainder 610 = 0" "crc8_remainder 1220 = 0" "crc8_remainder 2440 = 0" "crc8_remainder 4880 = 0" "crc8_remainder 9760 = 0" "crc8_remainder 19520 = 0" "crc8_remainder 39040 = 0" "crc8_remainder 78080 = 0" "crc8_remainder 156160 = 0" "crc8_remainder 312320 = 0" "crc8_remainder 624640 = 0" "crc8_remainder 1249280 = 0" "crc8_remainder 2498560 = 0" "crc8_remainder 4997120 = 0" "crc8_remainder 9994240 = 0"
  by code_simp+

lemma single_bit_remainders:
  "crc8_remainder 1 \<noteq> 0" "crc8_remainder 2 \<noteq> 0" "crc8_remainder 4 \<noteq> 0" "crc8_remainder 8 \<noteq> 0" "crc8_remainder 16 \<noteq> 0" "crc8_remainder 32 \<noteq> 0" "crc8_remainder 64 \<noteq> 0" "crc8_remainder 128 \<noteq> 0" "crc8_remainder 256 \<noteq> 0" "crc8_remainder 512 \<noteq> 0" "crc8_remainder 1024 \<noteq> 0" "crc8_remainder 2048 \<noteq> 0" "crc8_remainder 4096 \<noteq> 0" "crc8_remainder 8192 \<noteq> 0" "crc8_remainder 16384 \<noteq> 0" "crc8_remainder 32768 \<noteq> 0" "crc8_remainder 65536 \<noteq> 0" "crc8_remainder 131072 \<noteq> 0" "crc8_remainder 262144 \<noteq> 0" "crc8_remainder 524288 \<noteq> 0" "crc8_remainder 1048576 \<noteq> 0" "crc8_remainder 2097152 \<noteq> 0" "crc8_remainder 4194304 \<noteq> 0" "crc8_remainder 8388608 \<noteq> 0"
  by code_simp+


lemma crc8_zero: "crc8_remainder 0 = 0"
  by code_simp

lemma shifted_poly_remainder:
  "\<forall>n<16. crc8_remainder (push_bit n 0x131) = 0"
  by (simp add: eval_nat_numeral All_less_Suc shifted_poly_remainders)

lemma single_bit_remainder:
  "\<forall>n<24. crc8_remainder (push_bit n 1) \<noteq> 0"
  by (simp add: eval_nat_numeral All_less_Suc single_bit_remainders)

lemma snd_crc8_round: "snd (crc8_round i rd) = drop_bit 1 (snd rd)"
  by (cases rd) (simp add: crc8_round_def)

lemma fst_crc8_round:
  "fst (crc8_round i rd) = (if bit (fst rd) (23 - i) then fst rd XOR snd rd else fst rd)"
  by (cases rd) (simp add: crc8_round_def bit_iff_and_push_bit_not_eq_0)

lemma crc8_divisor:
  "snd (fold crc8_round [0..<n] (v, d)) = drop_bit n d"
  by (induction n) (simp_all add: snd_crc8_round)

lemma crc8_step:
  "fst (fold crc8_round [0..<Suc n] (v, d)) =
     (if bit (fst (fold crc8_round [0..<n] (v, d))) (23 - n)
      then fst (fold crc8_round [0..<n] (v, d)) XOR drop_bit n d
      else fst (fold crc8_round [0..<n] (v, d)))"
  by (simp add: fst_crc8_round crc8_divisor)

lemma crc8_linear_upto:
  "fst (fold crc8_round [0..<n] (a XOR b, d)) =
     fst (fold crc8_round [0..<n] (a, d)) XOR fst (fold crc8_round [0..<n] (b, d))"
proof (induction n)
  case 0
  show ?case by simp
next
  case (Suc n)
  show ?case
    unfolding crc8_step Suc.IH
    by (simp add: bit_xor_iff ac_simps)
qed

lemma crc8_linear:
  "crc8_remainder (a XOR b) = crc8_remainder a XOR crc8_remainder b"
  unfolding crc8_remainder_def by (rule crc8_linear_upto)

lemma flip_quotient_bit:
  "gf2_mult_upto n (q XOR push_bit k 1) p
     = gf2_mult_upto n q p XOR (if k < n then push_bit k p else 0)"
  by (induction n) (auto simp: bit_simps ac_simps less_Suc_eq)

lemma gf2_mult_upto_zero: "gf2_mult_upto n 0 p = 0"
  by (induction n) simp_all

lemma divisor_shift:
  assumes "n < 16"
  shows "drop_bit n (0x988000::int) = push_bit (15 - n) 0x131"
proof -
  have "drop_bit n (push_bit 15 (0x131::int)) = drop_bit (n - 15) (push_bit (15 - n) 0x131)"
    by (rule drop_bit_push_bit)
  moreover have "n - 15 = 0" using assms by simp
  moreover have "push_bit 15 (0x131::int) = 0x988000" by simp
  ultimately show ?thesis by simp
qed

lemma crc8_quotient:
  assumes "n \<le> 16"
  shows "\<exists>q. 0 \<le> q \<and> q < 2 ^ 16
     \<and> fst (fold crc8_round [0..<n] (v, 0x988000)) = v XOR gf2_mult_upto 16 q 0x131"
  using assms
proof (induction n)
  case 0
  have "0 \<le> (0::int) \<and> (0::int) < 2 ^ 16
     \<and> fst (fold crc8_round [0..<0] (v, 0x988000)) = v XOR gf2_mult_upto 16 0 0x131"
    by (simp add: gf2_mult_upto_zero)
  then show ?case by blast
next
  case (Suc n)
  then obtain q where q: "0 \<le> q" "q < 2 ^ 16"
    and r: "fst (fold crc8_round [0..<n] (v, 0x988000)) = v XOR gf2_mult_upto 16 q 0x131"
    by auto
  from Suc.prems have n: "n < 16" by simp
  show ?case
  proof (cases "bit (fst (fold crc8_round [0..<n] (v, 0x988000))) (23 - n)")
    case False
    with q r show ?thesis unfolding crc8_step by auto
  next
    case True
    let ?q = "q XOR push_bit (15 - n) 1"
    have "(2::int) ^ (15 - n) \<le> 2 ^ 15" by (rule power_increasing) simp_all
    then have b: "(push_bit (15 - n) 1 :: int) < 2 ^ 16"
      by (simp add: push_bit_eq_mult)
    have "0 \<le> ?q" using q by simp
    moreover have "?q < 2 ^ 16" using q b by (intro XOR_upper) simp_all
    moreover have "fst (fold crc8_round [0..<Suc n] (v, 0x988000))
        = v XOR gf2_mult_upto 16 ?q 0x131"
    proof -
      have f: "gf2_mult_upto 16 ?q 0x131
          = gf2_mult_upto 16 q 0x131 XOR push_bit (15 - n) 0x131"
      proof -
        have "15 - n < (16::nat)" by simp
        with flip_quotient_bit [where n = 16 and q = q and k = "15 - n" and p = "0x131"]
        show ?thesis by simp
      qed
      have "fst (fold crc8_round [0..<Suc n] (v, 0x988000))
          = fst (fold crc8_round [0..<n] (v, 0x988000)) XOR drop_bit n 0x988000"
        using True by (simp only: crc8_step if_True)
      also have "\<dots> = (v XOR gf2_mult_upto 16 q 0x131) XOR push_bit (15 - n) 0x131"
        by (simp only: r divisor_shift [OF n])
      also have "\<dots> = v XOR gf2_mult_upto 16 ?q 0x131"
        by (simp only: f xor.assoc)
      finally show ?thesis .
    qed
    ultimately show ?thesis by blast
  qed
qed

lemma multiples_have_remainder_zero:
  assumes "n \<le> 16"
  shows "crc8_remainder (gf2_mult_upto n q 0x131) = 0"
  using assms
proof (induction n)
  case 0
  show ?case by (simp add: crc8_zero)
next
  case (Suc n)
  then have "n < 16" by simp
  with shifted_poly_remainder have "crc8_remainder (push_bit n 0x131) = 0" by blast
  with Suc show ?case by (simp add: crc8_linear crc8_zero)
qed

lemma xor_zero_eq: "(a::int) XOR b = 0 \<Longrightarrow> a = b"
  by (auto simp: bit_eq_iff bit_xor_iff)

lemma remainder_zero_iff_multiple:
  "crc8_remainder v = 0 \<longleftrightarrow> (\<exists>q. 0 \<le> q \<and> q < 2 ^ 16 \<and> gf2_times q 0x131 = v)"
proof
  assume z: "crc8_remainder v = 0"
  from crc8_quotient [of 16 v] obtain q where q: "0 \<le> q" "q < 2 ^ 16"
    and r: "crc8_remainder v = v XOR gf2_mult_upto 16 q 0x131"
    unfolding crc8_remainder_def by auto
  from z r have "v XOR gf2_mult_upto 16 q 0x131 = 0" by simp
  then have "v = gf2_mult_upto 16 q 0x131" by (rule xor_zero_eq)
  then have "gf2_times q 0x131 = v" by (simp add: gf2_times_def)
  with q show "\<exists>q. 0 \<le> q \<and> q < 2 ^ 16 \<and> gf2_times q 0x131 = v" by blast
next
  assume "\<exists>q. 0 \<le> q \<and> q < 2 ^ 16 \<and> gf2_times q 0x131 = v"
  then obtain q where "gf2_times q 0x131 = v" by blast
  then show "crc8_remainder v = 0"
    using multiples_have_remainder_zero [of 16 q] by (simp add: gf2_times_def)
qed

lemma single_bit_error_detected:
  assumes "crc8_remainder v = 0" and "k < 24"
  shows "crc8_remainder (v XOR push_bit k 1) \<noteq> 0"
  using assms single_bit_remainder by (simp add: crc8_linear)


lemma shifted_disjoint:
  assumes "take_bit n b = (b::int)"
  shows "push_bit n a AND b = 0"
proof -
  have "push_bit n a AND take_bit n b = 0"
    by (rule bit_eqI) (auto simp: bit_simps)
  with assms show ?thesis by simp
qed

lemma shifted_add_eq_xor:
  "take_bit n b = (b::int) \<Longrightarrow> push_bit n a + b = push_bit n a XOR b"
  by (rule disjunctive_add_eq_xor) (rule shifted_disjoint)

lemma shifted_or_eq_xor:
  "take_bit n b = (b::int) \<Longrightarrow> push_bit n a OR b = push_bit n a XOR b"
  by (rule disjunctive_xor_eq_or [symmetric]) (rule shifted_disjoint)

lemma byte_take_bit: "0 \<le> b \<Longrightarrow> b < 256 \<Longrightarrow> take_bit 8 b = (b::int)"
  by (simp add: take_bit_int_eq_self)

lemma block_value_xor:
  assumes "0 \<le> b1" "b1 < 256" "0 \<le> b2" "b2 < 256"
  shows "push_bit 8 (push_bit 8 b0 + b1) OR b2 = push_bit 16 b0 XOR push_bit 8 b1 XOR (b2::int)"
proof -
  have "push_bit 8 (push_bit 8 b0 + b1) OR b2 = push_bit 8 (push_bit 8 b0 XOR b1) XOR b2"
    using assms by (simp only: shifted_add_eq_xor shifted_or_eq_xor byte_take_bit)
  also have "\<dots> = push_bit 16 b0 XOR push_bit 8 b1 XOR b2"
    by (simp add: push_bit_xor push_bit_push_bit ac_simps)
  finally show ?thesis .
qed

lemma block_value_sum:
  assumes "0 \<le> b1" "b1 < 256" "0 \<le> b2" "b2 < 256"
  shows "push_bit 8 (push_bit 8 b0 + b1) OR b2 = 65536 * b0 + 256 * b1 + (b2::int)"
proof -
  have "push_bit 8 (push_bit 8 b0 + b1) OR b2 = push_bit 8 (push_bit 8 b0 + b1) + b2"
    using assms by (simp only: shifted_add_eq_xor shifted_or_eq_xor byte_take_bit)
  also have "\<dots> = 65536 * b0 + 256 * b1 + b2"
    by (simp add: push_bit_eq_mult)
  finally show ?thesis .
qed

lemma flipped_byte:
  assumes "0 \<le> b" "b < 256" "i < 8"
  shows "0 \<le> b XOR push_bit i 1 \<and> b XOR push_bit i 1 < (256::int)"
proof -
  have "(2::int) ^ i \<le> 2 ^ 7" using assms(3) by (intro power_increasing) simp_all
  then have p: "(push_bit i 1 :: int) < 2 ^ 8" by (simp add: push_bit_eq_mult)
  have "b XOR push_bit i 1 < 2 ^ 8"
    using assms p by (intro XOR_upper) simp_all
  moreover have "0 \<le> b XOR push_bit i 1" using assms by simp
  ultimately show ?thesis by simp
qed

lemma crc8check_block:
  assumes "0 \<le> b1" "b1 < 256" "0 \<le> b2" "b2 < 256"
  shows "crc8check [b0, b1, b2] = Inr (crc8_remainder (push_bit 16 b0 XOR push_bit 8 b1 XOR b2) = 0)"
  using block_value_xor [OF assms, of b0]
  by (simp add: crc8check_def Let_def)

lemma crc8check_flipped:
  assumes b: "0 \<le> b0" "b0 < 256" "0 \<le> b1" "b1 < 256" "0 \<le> b2" "b2 < 256"
    and pass: "crc8check [b0, b1, b2] = Inr True" and i: "i < 8"
  shows "crc8check [b0 XOR push_bit i 1, b1, b2] = Inr False"
    and "crc8check [b0, b1 XOR push_bit i 1, b2] = Inr False"
    and "crc8check [b0, b1, b2 XOR push_bit i 1] = Inr False"
proof -
  let ?v = "push_bit 16 b0 XOR push_bit 8 b1 XOR b2"
  from pass crc8check_block [OF b(3-6), of b0] have z: "crc8_remainder ?v = 0" by simp
  have k: "16 + i < 24" "8 + i < 24" "i < 24" using i by simp_all
  note f1 = flipped_byte [OF b(3,4) i] and f2 = flipped_byte [OF b(5,6) i]
  have "crc8check [b0 XOR push_bit i 1, b1, b2]
      = Inr (crc8_remainder (?v XOR push_bit (16 + i) 1) = 0)"
    unfolding crc8check_block [OF b(3-6)]
    by (simp only: push_bit_xor push_bit_push_bit ac_simps)
  with single_bit_error_detected [OF z k(1)]
  show "crc8check [b0 XOR push_bit i 1, b1, b2] = Inr False" by simp
  have "crc8check [b0, b1 XOR push_bit i 1, b2]
      = Inr (crc8_remainder (?v XOR push_bit (8 + i) 1) = 0)"
    unfolding crc8check_block [OF conjunct1 [OF f1] conjunct2 [OF f1] b(5,6)]
    by (simp only: push_bit_xor push_bit_push_bit ac_simps)
  with single_bit_error_detected [OF z k(2)]
  show "crc8check [b0, b1 XOR push_bit i 1, b2] = Inr False" by simp
  have "crc8check [b0, b1, b2 XOR push_bit i 1]
      = Inr (crc8_remainder (?v XOR push_bit i 1) = 0)"
    unfolding crc8check_block [OF b(3,4) conjunct1 [OF f2] conjunct2 [OF f2]]
    by (simp only: ac_simps)
  with single_bit_error_detected [OF z k(3)]
  show "crc8check [b0, b1, b2 XOR push_bit i 1] = Inr False" by simp
qed

section \<open>The claims about the HTU21D driver\<close>

text \<open>
  Claim C7. For a block of three bytes, \<^verbatim>\<open>_crc8check\<close> accepts exactly when the 24-bit
  value made of the two data bytes followed by the CRC byte is divisible by the polynomial
  0x0131 over GF(2), which is what the remainder zero of the bit-serial division says; and
  when a block passes, flipping any one of its 24 bits makes the check fail.
\<close>

theorem crc8check_characterisation:
  assumes "0 \<le> b0" "b0 < 256" "0 \<le> b1" "b1 < 256" "0 \<le> b2" "b2 < 256"
  shows "(crc8check [b0, b1, b2] = Inr True \<longleftrightarrow>
            (\<exists>q. 0 \<le> q \<and> q < 2 ^ 16 \<and> gf2_times q 0x131 = 65536 * b0 + 256 * b1 + b2))
     \<and> (crc8check [b0, b1, b2] = Inr True \<longrightarrow>
          (\<forall>i<8. crc8check [b0 XOR push_bit i 1, b1, b2] = Inr False
                \<and> crc8check [b0, b1 XOR push_bit i 1, b2] = Inr False
                \<and> crc8check [b0, b1, b2 XOR push_bit i 1] = Inr False))"
proof (rule conjI)
  have "crc8check [b0, b1, b2] = Inr (crc8_remainder (65536 * b0 + 256 * b1 + b2) = 0)"
    using block_value_sum [OF assms(3-6), of b0] by (simp add: crc8check_def Let_def)
  then show "crc8check [b0, b1, b2] = Inr True \<longleftrightarrow>
            (\<exists>q. 0 \<le> q \<and> q < 2 ^ 16 \<and> gf2_times q 0x131 = 65536 * b0 + 256 * b1 + b2)"
    by (simp add: remainder_zero_iff_multiple)
next
  show "crc8check [b0, b1, b2] = Inr True \<longrightarrow>
          (\<forall>i<8. crc8check [b0 XOR push_bit i 1, b1, b2] = Inr False
                \<and> crc8check [b0, b1 XOR push_bit i 1, b2] = Inr False
                \<and> crc8check [b0, b1, b2 XOR push_bit i 1] = Inr False)"
  proof (intro impI allI)
    fix i :: nat
    assume "crc8check [b0, b1, b2] = Inr True" and "i < 8"
    from crc8check_flipped [OF assms this]
    show "crc8check [b0 XOR push_bit i 1, b1, b2] = Inr False
                \<and> crc8check [b0, b1 XOR push_bit i 1, b2] = Inr False
                \<and> crc8check [b0, b1, b2 XOR push_bit i 1] = Inr False"
      by simp
  qed
qed

text \<open>The block 0x68, 0x3A, 0x7C of the data sheet passes; with one bit of its second byte flipped it fails.\<close>

theorem crc8check_characterisation_witness:
  "crc8check [0x68, 0x3A, 0x7C] = Inr True
   \<and> (\<exists>q. 0 \<le> q \<and> q < 2 ^ 16 \<and> gf2_times q 0x131 = 0x683A7C)
   \<and> crc8check [0x68, 0x3A XOR push_bit 3 1, 0x7C] = Inr False"
proof -
  have p: "crc8check [0x68, 0x3A, 0x7C] = Inr True" by code_simp
  have "(0::int) \<le> 0x68" "(0x68::int) < 256" "(0::int) \<le> 0x3A" "(0x3A::int) < 256"
    "(0::int) \<le> 0x7C" "(0x7C::int) < 256" by simp_all
  note c = crc8check_characterisation [OF this]
  from c p have "\<exists>q. 0 \<le> q \<and> q < 2 ^ 16 \<and> gf2_times q 0x131 = 65536 * 0x68 + 256 * 0x3A + 0x7C"
    by blast
  moreover have "(3::nat) < 8" by simp
  with c p have "crc8check [0x68, 0x3A XOR push_bit 3 1, 0x7C] = Inr False" by blast
  ultimately show ?thesis using p by simp
qed

text \<open>
  Claim C8. When both blocks have been read: if the temperature check fails, the update
  stores the sentinel -255 as temperature and clears the flag; if only the humidity check
  fails, the temperature is stored, the humidity becomes the sentinel -255 and the flag is
  cleared; in both cases \<^verbatim>\<open>sample_ok\<close> is false. \<^verbatim>\<open>sample_ok\<close> is true exactly when the
  flag is set, the temperature is above -100 and the humidity is above -1.
\<close>

theorem crc_failure_handling:
  assumes rb: "read_blocks s b tr = (Some (buf_t, buf_h), tr1)"
  shows "(crc8check buf_t = Inr False \<longrightarrow>
            htu_update s b tr = (None, s\<lparr>htu_temperature := - 255, ok := False\<rparr>, tr1)
            \<and> \<not> htu_sample_ok (fst (snd (htu_update s b tr))))
     \<and> (crc8check buf_t = Inr True \<and> crc8check buf_h = Inr False \<longrightarrow>
            htu_update s b tr =
              (None,
               s\<lparr>htu_temperature := calc_temp ((push_bit 8 (buf_t ! 0) OR buf_t ! 1) AND 0xFFFC),
                 htu_humidity := - 255, ok := False\<rparr>,
               tr1)
            \<and> \<not> htu_sample_ok (fst (snd (htu_update s b tr))))
     \<and> (\<forall>s'. htu_sample_ok s' \<longleftrightarrow>
            ok s' \<and> - 100 < htu_temperature s' \<and> - 1 < htu_humidity s')"
proof (intro conjI impI)
  assume "crc8check buf_t = Inr False"
  then show u: "htu_update s b tr = (None, s\<lparr>htu_temperature := - 255, ok := False\<rparr>, tr1)"
    by (simp add: htu_update_def rb store_blocks_def)
  show "\<not> htu_sample_ok (fst (snd (htu_update s b tr)))"
    unfolding u by (simp add: htu_sample_ok_def)
next
  assume "crc8check buf_t = Inr True \<and> crc8check buf_h = Inr False"
  then show u: "htu_update s b tr =
              (None,
               s\<lparr>htu_temperature := calc_temp ((push_bit 8 (buf_t ! 0) OR buf_t ! 1) AND 0xFFFC),
                 htu_humidity := - 255, ok := False\<rparr>,
               tr1)"
    by (simp add: htu_update_def rb store_blocks_def Let_def)
  show "\<not> htu_sample_ok (fst (snd (htu_update s b tr)))"
    unfolding u by (simp add: htu_sample_ok_def)
next
  show "\<forall>s'. htu_sample_ok s' \<longleftrightarrow>
            ok s' \<and> - 100 < htu_temperature s' \<and> - 1 < htu_humidity s'"
    by (simp add: htu_sample_ok_def)
qed

text \<open>
  The data-sheet blocks: a good temperature block with a bad humidity block, and a bad
  temperature block.
\<close>

theorem crc_failure_handling_witness:
  "(\<exists>s tr. HTU21D (block_device [0x68, 0x3A, 0x7C] [0x4E, 0x85, 0x00]) [] = (None, s, tr)
       \<and> htu_temperature s = calc_temp 0x6838 \<and> htu_humidity s = - 255 \<and> \<not> htu_sample_ok s)
   \<and> (\<exists>s tr. HTU21D (block_device [0x68, 0x3A, 0x7D] [0x4E, 0x85, 0x6B]) [] = (None, s, tr)
       \<and> htu_temperature s = - 255 \<and> \<not> htu_sample_ok s)"
proof -
  define S1 where "S1 = \<lparr>i2c_add = 0x40, ok = True, htu_temperature = - 255, htu_humidity = - 255\<rparr>"
  define TR0 where "TR0 = [Write_byte 0x40 CMD_SOFT_RESET True, Sleep MEASUREMENT_WAIT_TIME]"
  have A: "\<exists>s tr. HTU21D B [] = (None, s, tr)
       \<and> htu_temperature s = calc_temp 0x6838 \<and> htu_humidity s = - 255 \<and> \<not> htu_sample_ok s"
    if B: "B = block_device [0x68, 0x3A, 0x7C] [0x4E, 0x85, 0x00]" for B
  proof -
    define TR1 where "TR1 = snd (read_blocks S1 B TR0)"
    have rb: "read_blocks S1 B TR0 = (Some ([0x68, 0x3A, 0x7C], [0x4E, 0x85, 0x00]), TR1)"
      unfolding TR1_def S1_def TR0_def B by code_simp
    have c: "crc8check [0x68, 0x3A, 0x7C] = Inr True \<and> crc8check [0x4E, 0x85, 0x00] = Inr False"
      by code_simp
    have t: "(push_bit 8 ([0x68, 0x3A, 0x7C] ! 0) OR [0x68, 0x3A, 0x7C] ! 1) AND 0xFFFC = (0x6838::int)"
      by code_simp
    have h: "HTU21D B [] = htu_update S1 B TR0"
      unfolding S1_def TR0_def B by code_simp
    from crc_failure_handling [OF rb] c
    have "htu_update S1 B TR0 =
              (None,
               S1\<lparr>htu_temperature := calc_temp ((push_bit 8 ([0x68, 0x3A, 0x7C] ! 0) OR [0x68, 0x3A, 0x7C] ! 1) AND 0xFFFC),
                 htu_humidity := - 255, ok := False\<rparr>,
               TR1)
            \<and> \<not> htu_sample_ok (fst (snd (htu_update S1 B TR0)))"
      by blast
    with h t show ?thesis by (simp add: htu_sample_ok_def)
  qed
  have B: "\<exists>s tr. HTU21D B [] = (None, s, tr)
       \<and> htu_temperature s = - 255 \<and> \<not> htu_sample_ok s"
    if B: "B = block_device [0x68, 0x3A, 0x7D] [0x4E, 0x85, 0x6B]" for B
  proof -
    define TR1 where "TR1 = snd (read_blocks S1 B TR0)"
    have rb: "read_blocks S1 B TR0 = (Some ([0x68, 0x3A, 0x7D], [0x4E, 0x85, 0x6B]), TR1)"
      unfolding TR1_def S1_def TR0_def B by code_simp
    have c: "crc8check [0x68, 0x3A, 0x7D] = Inr False"
      by code_simp
    have h: "HTU21D B [] = htu_update S1 B TR0"
      unfolding S1_def TR0_def B by code_simp
    from crc_failure_handling [OF rb] c
    have "htu_update S1 B TR0 = (None, S1\<lparr>htu_temperature := - 255, ok := False\<rparr>, TR1)
            \<and> \<not> htu_sample_ok (fst (snd (htu_update S1 B TR0)))"
      by blast
    with h show ?thesis by (simp add: htu_sample_ok_def)
  qed
  from A B show ?thesis by blast
qed

end
